theory Spec2Isabelle
  imports Main
begin

section \<open>The persisted schema of \<open>src/models/books.py\<close>\<close>

text \<open>
  The module declares six tables through SQLAlchemy's declarative mapping, for the SQLite
  dialect. A table is modelled as the list of its rows, a row as a record of its columns,
  and every constraint the module declares (primary keys, unique indexes, \<open>CHECK\<close>
  constraints, foreign keys with their \<open>ON DELETE\<close> action, the server default of
  \<open>Token.kind\<close>) as a test made by the operation that writes the row: a write that
  violates one raises \<open>IntegrityError\<close> and leaves the database as it was.

  Columns declared \<open>nullable=False\<close> (and primary key columns) have the type of their
  values: \<open>NULL\<close> there is refused by the engine and never persisted. An \<open>INSERT\<close>
  names the primary key of its row; the \<open>id\<close> the engine assigns when none is given is
  one such key, fresh in the table. Columns declared
  \<open>nullable=True\<close> have an \<open>option\<close> type, \<open>None\<close> being \<open>NULL\<close>.
  Integers are \<open>int\<close>, as Python's are: SQLite gives \<open>Integer\<close> and
  \<open>SmallInteger\<close> the same storage class, a signed 64-bit integer, and the driver
  refuses to bind an integer outside it with \<open>OverflowError\<close>. The writes of
  \<open>book_vocab\<close> and \<open>book_totals\<close>, whose properties are about the values of the
  counts, make that test; the writes of the other tables are modelled on integers the
  driver binds. The columns of \<open>AuditMixin\<close> are
  declared in \<open>src.models.base\<close> and carry no constraint of this module; they are left out.
\<close>

subsection \<open>Enumerations\<close>

datatype TokenKind = WORD | PHRASE

fun TokenKind_value :: "TokenKind \<Rightarrow> int" where
  "TokenKind_value WORD = 1"
| "TokenKind_value PHRASE = 2"

datatype LearningStatus = LEARNING | KNOWN | IGNORE

fun LearningStatus_value :: "LearningStatus \<Rightarrow> int" where
  "LearningStatus_value LEARNING = 1"
| "LearningStatus_value KNOWN = 2"
| "LearningStatus_value IGNORE = 3"

definition NUM_LEARNING_STAGES :: int where
  "NUM_LEARNING_STAGES = 5"

subsection \<open>Rows\<close>

record Book =
  Book_id :: int
  Book_language_id :: int
  Book_title :: string
  Book_cover_art_filepath :: "string option"
  Book_source :: "string option"
  Book_is_archived :: bool
  Book_last_visited_chapter :: "int option"
  Book_last_visited_word_index :: "int option"
  Book_last_read :: "int option"

record Chapter =
  Chapter_id :: int
  Chapter_book_id :: int
  Chapter_chapter_number :: int
  Chapter_content :: string
  Chapter_word_count :: int

record Token =
  Token_id :: int
  Token_language_id :: int
  Token_norm :: string
  Token_kind :: int

record BookVocab =
  BookVocab_book_id :: int
  BookVocab_token_id :: int
  BookVocab_token_count :: int

record TokenProgress =
  TokenProgress_token_id :: int
  TokenProgress_status :: int
  TokenProgress_learning_stage :: "int option"
  TokenProgress_translation :: "string option"

record BookTotals =
  BookTotals_book_id :: int
  BookTotals_total_tokens :: int
  BookTotals_total_types :: int

text \<open>
  The database. \<open>foreign_keys\<close> is the connection's \<open>PRAGMA foreign_keys\<close>: SQLite
  enforces foreign keys, and runs their \<open>ON DELETE\<close> actions, only when it is on. The
  engine is configured in \<open>src.models.base\<close>, so the setting is a parameter here.
  \<open>languages\<close> holds the primary keys of the \<open>Language\<close> table of
  \<open>src.models.language\<close>.
\<close>

record db =
  foreign_keys :: bool
  languages :: "int list"
  books :: "Book list"
  chapters :: "Chapter list"
  tokens :: "Token list"
  book_vocab :: "BookVocab list"
  token_progress :: "TokenProgress list"
  book_totals :: "BookTotals list"

text \<open>
  \<open>IntegrityError\<close> and \<open>OperationalError\<close> are the exceptions the engine raises through
  SQLAlchemy, \<open>OverflowError\<close> the one the driver raises for an integer it cannot bind.
  \<open>NotFoundError\<close> and \<open>ValidationError\<close> belong to the learning progress tracker of
  the specification.
\<close>

datatype error =
  IntegrityError | OperationalError | OverflowError | NotFoundError | ValidationError

text \<open>The integers SQLite stores: \<open>- 2^63 \<le> n < 2^63\<close>.\<close>

definition sqlite_integer :: "int \<Rightarrow> bool" where
  "sqlite_integer n = (- (2 ^ 63) \<le> n \<and> n < 2 ^ 63)"

subsection \<open>\<open>CHECK\<close> constraints\<close>

text \<open>
  The text of a \<open>CheckConstraint\<close> is an SQL expression over the row's columns. The
  three expressions of the module use integer columns and literals only, so a value is
  an \<open>int option\<close> (\<open>None\<close> is \<open>NULL\<close>) and a truth value a \<open>bool option\<close>
  (\<open>None\<close> is unknown). SQL's logic is three-valued, and a \<open>CHECK\<close> constraint is
  violated only when its expression is false: an unknown result passes.
\<close>

datatype sql_term = Col string | Lit int

datatype sql_expr =
    Ne sql_term sql_term
  | In sql_term "sql_term list"
  | Between sql_term sql_term sql_term
  | Or sql_expr sql_expr

fun eval_term :: "(string \<Rightarrow> int option) \<Rightarrow> sql_term \<Rightarrow> int option" where
  "eval_term row (Col c) = row c"
| "eval_term row (Lit n) = Some n"

fun sql_eq :: "int option \<Rightarrow> int option \<Rightarrow> bool option" where
  "sql_eq (Some a) (Some b) = Some (a = b)"
| "sql_eq _ _ = None"

fun sql_le :: "int option \<Rightarrow> int option \<Rightarrow> bool option" where
  "sql_le (Some a) (Some b) = Some (a \<le> b)"
| "sql_le _ _ = None"

fun sql_not :: "bool option \<Rightarrow> bool option" where
  "sql_not (Some b) = Some (\<not> b)"
| "sql_not None = None"

fun sql_or :: "bool option \<Rightarrow> bool option \<Rightarrow> bool option" where
  "sql_or (Some True) _ = Some True"
| "sql_or _ (Some True) = Some True"
| "sql_or (Some False) (Some False) = Some False"
| "sql_or _ _ = None"

fun sql_and :: "bool option \<Rightarrow> bool option \<Rightarrow> bool option" where
  "sql_and (Some False) _ = Some False"
| "sql_and _ (Some False) = Some False"
| "sql_and (Some True) (Some True) = Some True"
| "sql_and _ _ = None"

fun eval_expr :: "(string \<Rightarrow> int option) \<Rightarrow> sql_expr \<Rightarrow> bool option" where
  "eval_expr row (Ne a b) = sql_not (sql_eq (eval_term row a) (eval_term row b))"
| "eval_expr row (In a bs) =
     foldr (\<lambda>b acc. sql_or (sql_eq (eval_term row a) (eval_term row b)) acc) bs (Some False)"
| "eval_expr row (Between a lo hi) =
     sql_and (sql_le (eval_term row lo) (eval_term row a))
             (sql_le (eval_term row a) (eval_term row hi))"
| "eval_expr row (Or p q) = sql_or (eval_expr row p) (eval_expr row q)"

definition check_holds :: "(string \<Rightarrow> int option) \<Rightarrow> sql_expr \<Rightarrow> bool" where
  "check_holds row e = (eval_expr row e \<noteq> Some False)"

text \<open>\<open>CheckConstraint("kind IN (1, 2)", name="ck_token_kind_valid")\<close>\<close>

definition ck_token_kind_valid :: sql_expr where
  "ck_token_kind_valid = In (Col ''kind'') [Lit 1, Lit 2]"

text \<open>\<open>CheckConstraint("status IN (1, 2, 3)", name="ck_token_progress_status_valid")\<close>\<close>

definition ck_token_progress_status_valid :: sql_expr where
  "ck_token_progress_status_valid = In (Col ''status'') [Lit 1, Lit 2, Lit 3]"

text \<open>
  \<open>CheckConstraint("(status != 1) OR (learning_stage BETWEEN 1 AND 5)",
  name="ck_token_progress_learning_stage_valid")\<close>
\<close>

definition ck_token_progress_learning_stage_valid :: sql_expr where
  "ck_token_progress_learning_stage_valid =
     Or (Ne (Col ''status'') (Lit 1)) (Between (Col ''learning_stage'') (Lit 1) (Lit 5))"

text \<open>The integer columns of a row, by name, as the \<open>CHECK\<close> expressions read them.\<close>

definition Token_columns :: "Token \<Rightarrow> string \<Rightarrow> int option" where
  "Token_columns t c =
     (if c = ''id'' then Some (Token_id t)
      else if c = ''language_id'' then Some (Token_language_id t)
      else if c = ''kind'' then Some (Token_kind t)
      else None)"

definition TokenProgress_columns :: "TokenProgress \<Rightarrow> string \<Rightarrow> int option" where
  "TokenProgress_columns p c =
     (if c = ''token_id'' then Some (TokenProgress_token_id p)
      else if c = ''status'' then Some (TokenProgress_status p)
      else if c = ''learning_stage'' then TokenProgress_learning_stage p
      else None)"

subsection \<open>The server default of \<open>Token.kind\<close>\<close>

text \<open>
  \<open>server_default=str(TokenKind.WORD.value)\<close>: the default is the text that Python's
  \<open>str\<close> gives for the enumeration's value. The column has \<open>INTEGER\<close> affinity, so
  SQLite converts a text that is a decimal integer to that integer when it stores it.
  \<open>integer_affinity\<close> is that conversion on the texts \<open>str\<close> gives for an integer,
  an optional \<open>-\<close> and decimal digits, the only ones a default of this form can be;
  on them \<open>None\<close> does not arise. The other numeric texts SQLite converts (spaces
  around the number, a \<open>+\<close>, a real with no fraction) are outside it.
\<close>

fun str_nat :: "nat \<Rightarrow> string" where
  "str_nat n =
     (if n < 10 then [''0123456789'' ! n]
      else str_nat (n div 10) @ [''0123456789'' ! (n mod 10)])"

declare str_nat.simps [simp del]

definition py_str :: "int \<Rightarrow> string" where
  "py_str i = (if i < 0 then CHR ''-'' # str_nat (nat (- i)) else str_nat (nat i))"

definition digit_value :: "char \<Rightarrow> nat option" where
  "digit_value c =
     (let n = (of_char c :: nat) in if 48 \<le> n \<and> n \<le> 57 then Some (n - 48) else None)"

fun parse_digits :: "string \<Rightarrow> nat \<Rightarrow> nat option" where
  "parse_digits [] acc = Some acc"
| "parse_digits (c # cs) acc =
     (case digit_value c of None \<Rightarrow> None | Some v \<Rightarrow> parse_digits cs (10 * acc + v))"

definition integer_affinity :: "string \<Rightarrow> int option" where
  "integer_affinity s =
     (case s of
        [] \<Rightarrow> None
      | c # cs \<Rightarrow>
          if c = CHR ''-''
          then (if cs = [] then None else map_option (\<lambda>n. - int n) (parse_digits cs 0))
          else map_option int (parse_digits s 0))"

definition Token_kind_server_default :: string where
  "Token_kind_server_default = py_str (TokenKind_value WORD)"

subsection \<open>What each table accepts\<close>

text \<open>
  \<open>others\<close> is the rest of the table: all of it for an \<open>INSERT\<close>, the rows that
  are not being changed for an \<open>UPDATE\<close>. Foreign keys are tested by the operations,
  since SQLite tests them only when the child key is written.
\<close>

definition Book_accepts :: "Book list \<Rightarrow> Book \<Rightarrow> bool" where
  "Book_accepts others b = (Book_id b \<notin> set (map Book_id others))"

text \<open>
  \<open>Index("ix_chapter_book_id_chapter_number", "book_id", "chapter_number", unique=True)\<close>
\<close>

definition Chapter_key :: "Chapter \<Rightarrow> int \<times> int" where
  "Chapter_key c = (Chapter_book_id c, Chapter_chapter_number c)"

definition Chapter_accepts :: "Chapter list \<Rightarrow> Chapter \<Rightarrow> bool" where
  "Chapter_accepts others c =
     (Chapter_id c \<notin> set (map Chapter_id others) \<and>
      Chapter_key c \<notin> set (map Chapter_key others))"

text \<open>\<open>Index("ix_token_language_id_norm", "language_id", "norm", unique=True)\<close>\<close>

definition Token_key :: "Token \<Rightarrow> int \<times> string" where
  "Token_key t = (Token_language_id t, Token_norm t)"

definition Token_accepts :: "Token list \<Rightarrow> Token \<Rightarrow> bool" where
  "Token_accepts others t =
     (Token_id t \<notin> set (map Token_id others) \<and>
      Token_key t \<notin> set (map Token_key others) \<and>
      check_holds (Token_columns t) ck_token_kind_valid)"

text \<open>
  \<open>book_vocab\<close> has the composite primary key \<open>(book_id, token_id)\<close>, a non-unique
  index, and no \<open>CHECK\<close> constraint.
\<close>

definition BookVocab_key :: "BookVocab \<Rightarrow> int \<times> int" where
  "BookVocab_key v = (BookVocab_book_id v, BookVocab_token_id v)"

definition BookVocab_accepts :: "BookVocab list \<Rightarrow> BookVocab \<Rightarrow> bool" where
  "BookVocab_accepts others v = (BookVocab_key v \<notin> set (map BookVocab_key others))"

definition TokenProgress_accepts :: "TokenProgress list \<Rightarrow> TokenProgress \<Rightarrow> bool" where
  "TokenProgress_accepts others p =
     (TokenProgress_token_id p \<notin> set (map TokenProgress_token_id others) \<and>
      check_holds (TokenProgress_columns p) ck_token_progress_status_valid \<and>
      check_holds (TokenProgress_columns p) ck_token_progress_learning_stage_valid)"

subsection \<open>Writing rows\<close>

text \<open>
  An \<open>INSERT\<close> appends the row when the table accepts it and, with foreign keys
  enforced, when every parent row it names exists. An \<open>UPDATE ... WHERE\<close> on the
  primary key changes the columns that are neither of the key nor a foreign key, so it
  tests no foreign key; when no row has the key it changes nothing and succeeds. The
  driver binds the parameters of a statement before the engine runs it, so an
  \<open>OverflowError\<close> comes before any test of the engine.
\<close>

definition insert_Book :: "db \<Rightarrow> Book \<Rightarrow> error + db" where
  "insert_Book d b =
     (if \<not> Book_accepts (books d) b then Inl IntegrityError
      else if foreign_keys d \<and> Book_language_id b \<notin> set (languages d) then Inl IntegrityError
      else Inr (d\<lparr>books := books d @ [b]\<rparr>))"

definition insert_Chapter :: "db \<Rightarrow> Chapter \<Rightarrow> error + db" where
  "insert_Chapter d c =
     (if \<not> Chapter_accepts (chapters d) c then Inl IntegrityError
      else if foreign_keys d \<and> Chapter_book_id c \<notin> set (map Book_id (books d))
      then Inl IntegrityError
      else Inr (d\<lparr>chapters := chapters d @ [c]\<rparr>))"

definition update_Chapter :: "db \<Rightarrow> int \<Rightarrow> int \<Rightarrow> string \<Rightarrow> int \<Rightarrow> error + db" where
  "update_Chapter d cid chapter_number content word_count =
     (case find (\<lambda>c. Chapter_id c = cid) (chapters d) of
        None \<Rightarrow> Inr d
      | Some old \<Rightarrow>
          let new = old\<lparr>Chapter_chapter_number := chapter_number,
                        Chapter_content := content, Chapter_word_count := word_count\<rparr>
          in if Chapter_accepts (filter (\<lambda>c. Chapter_id c \<noteq> cid) (chapters d)) new
             then Inr (d\<lparr>chapters := map (\<lambda>c. if Chapter_id c = cid then new else c) (chapters d)\<rparr>)
             else Inl IntegrityError)"

text \<open>
  A token created with no \<open>kind\<close> (\<open>None\<close>) leaves the column out of the
  \<open>INSERT\<close>, and the engine stores the server default.
\<close>

definition insert_Token :: "db \<Rightarrow> int \<Rightarrow> int \<Rightarrow> string \<Rightarrow> int option \<Rightarrow> error + db" where
  "insert_Token d tid language_id norm kind =
     (case (case kind of Some k \<Rightarrow> Some k
                       | None \<Rightarrow> integer_affinity Token_kind_server_default) of
        None \<Rightarrow> Inl IntegrityError
      | Some k \<Rightarrow>
          let t = \<lparr>Token_id = tid, Token_language_id = language_id,
                   Token_norm = norm, Token_kind = k\<rparr>
          in if \<not> Token_accepts (tokens d) t then Inl IntegrityError
             else if foreign_keys d \<and> language_id \<notin> set (languages d) then Inl IntegrityError
             else Inr (d\<lparr>tokens := tokens d @ [t]\<rparr>))"

definition update_Token :: "db \<Rightarrow> int \<Rightarrow> string \<Rightarrow> int \<Rightarrow> error + db" where
  "update_Token d tid norm kind =
     (case find (\<lambda>t. Token_id t = tid) (tokens d) of
        None \<Rightarrow> Inr d
      | Some old \<Rightarrow>
          let new = old\<lparr>Token_norm := norm, Token_kind := kind\<rparr>
          in if Token_accepts (filter (\<lambda>t. Token_id t \<noteq> tid) (tokens d)) new
             then Inr (d\<lparr>tokens := map (\<lambda>t. if Token_id t = tid then new else t) (tokens d)\<rparr>)
             else Inl IntegrityError)"

definition insert_BookVocab :: "db \<Rightarrow> BookVocab \<Rightarrow> error + db" where
  "insert_BookVocab d v =
     (if \<not> (sqlite_integer (BookVocab_book_id v) \<and> sqlite_integer (BookVocab_token_id v) \<and>
             sqlite_integer (BookVocab_token_count v))
      then Inl OverflowError
      else if \<not> BookVocab_accepts (book_vocab d) v then Inl IntegrityError
      else if foreign_keys d \<and>
              (BookVocab_book_id v \<notin> set (map Book_id (books d)) \<or>
               BookVocab_token_id v \<notin> set (map Token_id (tokens d)))
      then Inl IntegrityError
      else Inr (d\<lparr>book_vocab := book_vocab d @ [v]\<rparr>))"

definition update_BookVocab :: "db \<Rightarrow> int \<Rightarrow> int \<Rightarrow> int \<Rightarrow> error + db" where
  "update_BookVocab d book_id token_id token_count =
     (if \<not> (sqlite_integer book_id \<and> sqlite_integer token_id \<and> sqlite_integer token_count)
      then Inl OverflowError
      else Inr (d\<lparr>book_vocab :=
                  map (\<lambda>v. if BookVocab_key v = (book_id, token_id)
                           then v\<lparr>BookVocab_token_count := token_count\<rparr> else v)
                      (book_vocab d)\<rparr>))"

definition insert_TokenProgress :: "db \<Rightarrow> TokenProgress \<Rightarrow> error + db" where
  "insert_TokenProgress d p =
     (if \<not> TokenProgress_accepts (token_progress d) p then Inl IntegrityError
      else if foreign_keys d \<and> TokenProgress_token_id p \<notin> set (map Token_id (tokens d))
      then Inl IntegrityError
      else Inr (d\<lparr>token_progress := token_progress d @ [p]\<rparr>))"

definition update_TokenProgress ::
  "db \<Rightarrow> int \<Rightarrow> int \<Rightarrow> int option \<Rightarrow> string option \<Rightarrow> error + db" where
  "update_TokenProgress d tid status learning_stage translation =
     (case find (\<lambda>p. TokenProgress_token_id p = tid) (token_progress d) of
        None \<Rightarrow> Inr d
      | Some old \<Rightarrow>
          let new = old\<lparr>TokenProgress_status := status,
                        TokenProgress_learning_stage := learning_stage,
                        TokenProgress_translation := translation\<rparr>
          in if TokenProgress_accepts
                  (filter (\<lambda>p. TokenProgress_token_id p \<noteq> tid) (token_progress d)) new
             then Inr (d\<lparr>token_progress :=
                           map (\<lambda>p. if TokenProgress_token_id p = tid then new else p)
                               (token_progress d)\<rparr>)
             else Inl IntegrityError)"

subsection \<open>Deleting a book\<close>

text \<open>
  \<open>session.delete(book)\<close>. Three tables reference \<open>books\<close>:
  \<^item> \<open>chapters\<close>, through \<open>Book.chapters\<close> with \<open>cascade="all, delete-orphan"\<close>:
    the session deletes the book's chapters before the book;
  \<^item> \<open>book_totals\<close>, with \<open>ForeignKey(Book.id, ondelete="CASCADE")\<close>: the engine
    deletes the book's totals, when foreign keys are enforced;
  \<^item> \<open>book_vocab\<close>, with \<open>ForeignKey(Book.id)\<close> and no relationship: no action. With
    foreign keys enforced the engine refuses to delete a book that a \<open>book_vocab\<close> row
    references; without, the rows stay.
\<close>

definition delete_Book :: "db \<Rightarrow> int \<Rightarrow> error + db" where
  "delete_Book d bid =
     (if bid \<notin> set (map Book_id (books d)) then Inr d
      else
        let d1 = d\<lparr>chapters := filter (\<lambda>c. Chapter_book_id c \<noteq> bid) (chapters d)\<rparr>;
            d2 = d1\<lparr>books := filter (\<lambda>b. Book_id b \<noteq> bid) (books d1)\<rparr>
        in if foreign_keys d
           then (if bid \<in> set (map BookVocab_book_id (book_vocab d)) then Inl IntegrityError
                 else Inr (d2\<lparr>book_totals :=
                                filter (\<lambda>r. BookTotals_book_id r \<noteq> bid) (book_totals d2)\<rparr>))
           else Inr d2)"

subsection \<open>\<open>BookTotals.upsert_stmt\<close>\<close>

text \<open>
  The statement \<open>insert(cls).values(...).on_conflict_do_update(index_elements=...,
  set_=...)\<close> is a value: the row to insert, the conflict target, and the two
  assignments of the \<open>set_\<close> dictionary, whose keys are fixed.
\<close>

record upsert =
  values_book_id :: int
  values_total_tokens :: int
  values_total_types :: int
  index_elements :: "string list"
  set_total_tokens :: int
  set_total_types :: int

definition upsert_stmt :: "int \<Rightarrow> int \<Rightarrow> int \<Rightarrow> upsert" where
  "upsert_stmt book_id total_tokens total_types =
     \<lparr>values_book_id = book_id,
      values_total_tokens = total_tokens,
      values_total_types = total_types,
      index_elements = [''book_id''],
      set_total_tokens = total_tokens,
      set_total_types = total_types\<rparr>"

text \<open>
  Executing it, as SQLite's \<open>INSERT ... ON CONFLICT (...) DO UPDATE SET ...\<close>: the
  conflict target must name a unique index of the table, and \<open>book_totals\<close> has its
  primary key only. The five integers of the statement are bound parameters. A row with
  the same \<open>book_id\<close> is updated in place, which writes no foreign key; otherwise the
  row is inserted, subject to the foreign key.
\<close>

definition execute :: "db \<Rightarrow> upsert \<Rightarrow> error + db" where
  "execute d s =
     (if index_elements s \<noteq> [''book_id''] then Inl OperationalError
      else if \<not> (sqlite_integer (values_book_id s) \<and>
                   sqlite_integer (values_total_tokens s) \<and>
                   sqlite_integer (values_total_types s) \<and>
                   sqlite_integer (set_total_tokens s) \<and>
                   sqlite_integer (set_total_types s))
      then Inl OverflowError
      else if values_book_id s \<in> set (map BookTotals_book_id (book_totals d))
      then Inr (d\<lparr>book_totals :=
                   map (\<lambda>r. if BookTotals_book_id r = values_book_id s
                            then r\<lparr>BookTotals_total_tokens := set_total_tokens s,
                                   BookTotals_total_types := set_total_types s\<rparr>
                            else r) (book_totals d)\<rparr>)
      else if foreign_keys d \<and> values_book_id s \<notin> set (map Book_id (books d))
      then Inl IntegrityError
      else Inr (d\<lparr>book_totals := book_totals d @
                   [\<lparr>BookTotals_book_id = values_book_id s,
                     BookTotals_total_tokens = values_total_tokens s,
                     BookTotals_total_types = values_total_types s\<rparr>]\<rparr>))"

subsection \<open>The states of the database\<close>

datatype operation =
    InsertBook Book
  | DeleteBook int
  | InsertChapter Chapter
  | UpdateChapter int int string int
  | InsertToken int int string "int option"
  | UpdateToken int string int
  | InsertBookVocab BookVocab
  | UpdateBookVocab int int int
  | InsertTokenProgress TokenProgress
  | UpdateTokenProgress int int "int option" "string option"
  | Execute upsert

fun run :: "db \<Rightarrow> operation \<Rightarrow> error + db" where
  "run d (InsertBook b) = insert_Book d b"
| "run d (DeleteBook bid) = delete_Book d bid"
| "run d (InsertChapter c) = insert_Chapter d c"
| "run d (UpdateChapter cid n content wc) = update_Chapter d cid n content wc"
| "run d (InsertToken tid l norm kind) = insert_Token d tid l norm kind"
| "run d (UpdateToken tid norm kind) = update_Token d tid norm kind"
| "run d (InsertBookVocab v) = insert_BookVocab d v"
| "run d (UpdateBookVocab b t n) = update_BookVocab d b t n"
| "run d (InsertTokenProgress p) = insert_TokenProgress d p"
| "run d (UpdateTokenProgress tid st stage tr) = update_TokenProgress d tid st stage tr"
| "run d (Execute s) = execute d s"

definition empty_db :: "bool \<Rightarrow> int list \<Rightarrow> db" where
  "empty_db fk langs =
     \<lparr>foreign_keys = fk, languages = langs, books = [], chapters = [], tokens = [],
      book_vocab = [], token_progress = [], book_totals = []\<rparr>"

text \<open>
  The persisted states: those a sequence of committed operations reaches from the empty
  tables. An operation that raises commits nothing.
\<close>

fun run_all :: "db \<Rightarrow> operation list \<Rightarrow> db" where
  "run_all d [] = d"
| "run_all d (x # xs) =
     (case run d x of Inl e \<Rightarrow> run_all d xs | Inr d' \<Rightarrow> run_all d' xs)"

subsection \<open>The learning progress tracker\<close>

text \<open>
  Modelled from the spec: the transition \<open>advance(tokenId)\<close> of the learning progress
  tracker is not in \<open>src/models/books.py\<close>, which declares the \<open>token_progress\<close> table
  and \<open>NUM_LEARNING_STAGES\<close> only. The specification gives: "valid only from
  \<open>LEARNING\<close>; increments stage by 1, capped at 5", a token that does not exist is a
  \<open>NotFoundError\<close>, an invalid status/stage combination a \<open>ValidationError\<close>. The new
  stage is written by an \<open>UPDATE\<close> of the row, which the table's constraints test.
\<close>

definition advance :: "db \<Rightarrow> int \<Rightarrow> error + db" where
  "advance d tokenId =
     (case find (\<lambda>p. TokenProgress_token_id p = tokenId) (token_progress d) of
        None \<Rightarrow> Inl NotFoundError
      | Some p \<Rightarrow>
          if TokenProgress_status p \<noteq> LearningStatus_value LEARNING then Inl ValidationError
          else (case TokenProgress_learning_stage p of
                  None \<Rightarrow> Inl ValidationError
                | Some stage \<Rightarrow>
                    update_TokenProgress d tokenId (LearningStatus_value LEARNING)
                      (Some (min (stage + 1) NUM_LEARNING_STAGES))
                      (TokenProgress_translation p)))"

fun advance_times :: "nat \<Rightarrow> db \<Rightarrow> int \<Rightarrow> error + db" where
  "advance_times 0 d tokenId = Inr d"
| "advance_times (Suc n) d tokenId =
     (case advance d tokenId of Inl e \<Rightarrow> Inl e | Inr d' \<Rightarrow> advance_times n d' tokenId)"

text \<open>The status and the stage the table holds for a token.\<close>

definition progress_of :: "db \<Rightarrow> int \<Rightarrow> (int \<times> int option) option" where
  "progress_of d tokenId =
     map_option (\<lambda>p. (TokenProgress_status p, TokenProgress_learning_stage p))
       (find (\<lambda>p. TokenProgress_token_id p = tokenId) (token_progress d))"

subsection \<open>The invariants as the specification words them\<close>

text \<open>
  "\<open>learning_stage\<close> is non-null iff \<open>status = LEARNING\<close>, and when non-null lies in
  [1,5]."
\<close>

definition stage_iff_learning :: "TokenProgress \<Rightarrow> bool" where
  "stage_iff_learning p =
     (case TokenProgress_learning_stage p of
        None \<Rightarrow> TokenProgress_status p \<noteq> LearningStatus_value LEARNING
      | Some s \<Rightarrow> TokenProgress_status p = LearningStatus_value LEARNING \<and> 1 \<le> s \<and> s \<le> 5)"

text \<open>
  What the two \<open>CHECK\<close> constraints of \<open>token_progress\<close> say of a row whose stage is
  not \<open>NULL\<close>.
\<close>

definition stage_valid_when_learning :: "TokenProgress \<Rightarrow> bool" where
  "stage_valid_when_learning p =
     (TokenProgress_status p \<in> {1, 2, 3} \<and>
      (case TokenProgress_learning_stage p of
         None \<Rightarrow> True
       | Some s \<Rightarrow> TokenProgress_status p = LearningStatus_value LEARNING \<longrightarrow> 1 \<le> s \<and> s \<le> 5))"

text \<open>"\<open>count > 0\<close>", of a \<open>book_vocab\<close> row.\<close>

definition token_count_positive :: "BookVocab \<Rightarrow> bool" where
  "token_count_positive v = (0 < BookVocab_token_count v)"

text \<open>"No \<open>book_vocab\<close> row references a non-existent book."\<close>

definition book_vocab_books_exist :: "db \<Rightarrow> bool" where
  "book_vocab_books_exist d =
     list_all (\<lambda>v. BookVocab_book_id v \<in> set (map Book_id (books d))) (book_vocab d)"

text \<open>The primary key and the unique index of \<open>tokens\<close>, and those of \<open>chapters\<close>.\<close>

definition Token_rows_unique :: "Token list \<Rightarrow> bool" where
  "Token_rows_unique ts = (distinct (map Token_id ts) \<and> distinct (map Token_key ts))"

definition Chapter_rows_unique :: "Chapter list \<Rightarrow> bool" where
  "Chapter_rows_unique cs = (distinct (map Chapter_id cs) \<and> distinct (map Chapter_key cs))"

section \<open>Properties\<close>

subsection \<open>Three-valued logic and the \<open>CHECK\<close> constraints\<close>

lemma sql_or_Some [simp]: "sql_or (Some a) (Some b) = Some (a \<or> b)"
  by (cases a; cases b) simp_all

lemma sql_and_Some [simp]: "sql_and (Some a) (Some b) = Some (a \<and> b)"
  by (cases a; cases b) simp_all

lemma sql_or_None_right [simp]: "sql_or (Some a) None = (if a then Some True else None)"
  by (cases a) simp_all

lemma check_status_iff:
  "check_holds (TokenProgress_columns p) ck_token_progress_status_valid
     \<longleftrightarrow> TokenProgress_status p \<in> {1, 2, 3}"
  by (auto simp: check_holds_def ck_token_progress_status_valid_def TokenProgress_columns_def)

lemma check_stage_iff:
  "check_holds (TokenProgress_columns p) ck_token_progress_learning_stage_valid
     \<longleftrightarrow> (TokenProgress_status p = 1 \<longrightarrow>
            (case TokenProgress_learning_stage p of None \<Rightarrow> True | Some s \<Rightarrow> 1 \<le> s \<and> s \<le> 5))"
  by (auto simp: check_holds_def ck_token_progress_learning_stage_valid_def TokenProgress_columns_def split: option.splits)

lemma check_kind_iff:
  "check_holds (Token_columns t) ck_token_kind_valid \<longleftrightarrow> Token_kind t \<in> {1, 2}"
  by (auto simp: check_holds_def ck_token_kind_valid_def Token_columns_def)

lemma default_kind: "integer_affinity Token_kind_server_default = Some 1"
  by code_simp

subsection \<open>Lists of rows\<close>

lemma distinct_map_update:
  assumes "distinct (map k xs)" and "distinct (map f xs)" and "k new = a"
    and "f new \<notin> set (map f (filter (\<lambda>x. k x \<noteq> a) xs))"
  shows "distinct (map f (map (\<lambda>x. if k x = a then new else x) xs))"
  using assms
proof (induction xs)
  case Nil
  then show ?case by simp
next
  case (Cons x xs)
  show ?case
  proof (cases "k x = a")
    case True
    from Cons.prems have "k x \<notin> k ` set xs" by simp
    with True have "\<forall>y\<in>set xs. k y \<noteq> a" by (metis imageI)
    then have same: "map (\<lambda>x. if k x = a then new else x) xs = xs"
      and all: "filter (\<lambda>x. k x \<noteq> a) xs = xs"
      by (simp_all add: map_idI)
    with Cons.prems True show ?thesis by simp
  next
    case False
    with Cons.prems have "distinct (map f (map (\<lambda>x. if k x = a then new else x) xs))"
      by (intro Cons.IH) auto
    moreover have "f x \<notin> set (map f (map (\<lambda>x. if k x = a then new else x) xs))"
    proof -
      from Cons.prems False have neq: "f x \<noteq> f new" by auto
      from Cons.prems have "f x \<notin> f ` set xs" by simp
      with neq have "\<forall>y\<in>set xs. f (if k y = a then new else y) \<noteq> f x"
        by (metis imageI)
      then show ?thesis by (auto simp: image_iff)
    qed
    ultimately show ?thesis using False by simp
  qed
qed

lemma map_key_update_same:
  assumes "\<And>x. k x = a \<Longrightarrow> k new = a" 
  shows "map k (map (\<lambda>x. if k x = a then new else x) xs) = map k xs"
  using assms by (induction xs) auto

lemma find_key: "find (\<lambda>x. k x = a) xs = Some y \<Longrightarrow> k y = a"
  by (auto simp: find_Some_iff)

subsection \<open>What a successful operation wrote\<close>

lemma insert_Token_Inr:
  assumes "insert_Token d tid l norm kind = Inr d'"
  obtains t where "Token_accepts (tokens d) t" and "tokens d' = tokens d @ [t]"
    and "Token_id t = tid" and "Token_language_id t = l" and "Token_norm t = norm"
    and "kind = Some (Token_kind t) \<or> (kind = None \<and> integer_affinity Token_kind_server_default = Some (Token_kind t))"
proof (cases "case kind of Some k \<Rightarrow> Some k | None \<Rightarrow> integer_affinity Token_kind_server_default")
  case None
  with assms show ?thesis by (simp add: insert_Token_def)
next
  case (Some k)
  let ?t = "\<lparr>Token_id = tid, Token_language_id = l, Token_norm = norm, Token_kind = k\<rparr>"
  from assms Some have "Token_accepts (tokens d) ?t" and "tokens d' = tokens d @ [?t]"
    by (auto simp: insert_Token_def Let_def split: if_splits)
  moreover from Some
  have "kind = Some k \<or> (kind = None \<and> integer_affinity Token_kind_server_default = Some k)"
    by (cases kind) simp_all
  ultimately show ?thesis by (intro that[of ?t]) simp_all
qed

lemma update_Token_Inr:
  assumes "update_Token d tid norm kind = Inr d'"
  obtains "find (\<lambda>t. Token_id t = tid) (tokens d) = None" and "d' = d"
  | old where "find (\<lambda>t. Token_id t = tid) (tokens d) = Some old"
      and "Token_accepts (filter (\<lambda>t. Token_id t \<noteq> tid) (tokens d))
             (old\<lparr>Token_norm := norm, Token_kind := kind\<rparr>)"
      and "tokens d' = map (\<lambda>t. if Token_id t = tid
             then old\<lparr>Token_norm := norm, Token_kind := kind\<rparr> else t) (tokens d)"
proof (cases "find (\<lambda>t. Token_id t = tid) (tokens d)")
  case None
  with assms have "d' = d" by (simp add: update_Token_def)
  with None show ?thesis by (rule that(1))
next
  case (Some old)
  let ?new = "old\<lparr>Token_norm := norm, Token_kind := kind\<rparr>"
  show ?thesis
  proof (cases "Token_accepts (filter (\<lambda>t. Token_id t \<noteq> tid) (tokens d)) ?new")
    case True
    with assms Some
    have "d' = d\<lparr>tokens := map (\<lambda>t. if Token_id t = tid then ?new else t) (tokens d)\<rparr>"
      by (simp add: update_Token_def Let_def)
    then have "tokens d' = map (\<lambda>t. if Token_id t = tid then ?new else t) (tokens d)"
      by simp
    with Some True show ?thesis by (rule that(2))
  next
    case False
    with assms Some show ?thesis by (simp add: update_Token_def Let_def)
  qed
qed

subsection \<open>The tables an operation leaves alone\<close>

lemma insert_Book_frame:
  "insert_Book d b = Inr d' \<Longrightarrow>
     chapters d' = chapters d \<and> tokens d' = tokens d \<and> token_progress d' = token_progress d"
  by (auto simp: insert_Book_def split: if_splits)

lemma delete_Book_frame:
  "delete_Book d bid = Inr d' \<Longrightarrow>
     (chapters d' = chapters d \<or>
      chapters d' = filter (\<lambda>c. Chapter_book_id c \<noteq> bid) (chapters d)) \<and>
     tokens d' = tokens d \<and> token_progress d' = token_progress d"
  by (auto simp: delete_Book_def Let_def split: if_splits)

lemma insert_Chapter_frame:
  "insert_Chapter d c = Inr d' \<Longrightarrow> tokens d' = tokens d \<and> token_progress d' = token_progress d"
  by (auto simp: insert_Chapter_def split: if_splits)

lemma update_Chapter_frame:
  "update_Chapter d cid n content wc = Inr d' \<Longrightarrow>
     tokens d' = tokens d \<and> token_progress d' = token_progress d"
  by (auto simp: update_Chapter_def Let_def split: if_splits option.splits)

lemma insert_Token_frame:
  "insert_Token d tid l norm kind = Inr d' \<Longrightarrow>
     chapters d' = chapters d \<and> token_progress d' = token_progress d"
  by (auto simp: insert_Token_def Let_def split: if_splits option.splits)

lemma update_Token_frame:
  "update_Token d tid norm kind = Inr d' \<Longrightarrow>
     chapters d' = chapters d \<and> token_progress d' = token_progress d"
  by (auto simp: update_Token_def Let_def split: if_splits option.splits)

lemma insert_BookVocab_frame:
  "insert_BookVocab d v = Inr d' \<Longrightarrow>
     chapters d' = chapters d \<and> tokens d' = tokens d \<and> token_progress d' = token_progress d"
  by (auto simp: insert_BookVocab_def split: if_splits)

lemma update_BookVocab_frame:
  "update_BookVocab d b t n = Inr d' \<Longrightarrow>
     chapters d' = chapters d \<and> tokens d' = tokens d \<and> token_progress d' = token_progress d"
  by (auto simp: update_BookVocab_def split: if_splits)

lemma insert_TokenProgress_frame:
  "insert_TokenProgress d p = Inr d' \<Longrightarrow> chapters d' = chapters d \<and> tokens d' = tokens d"
  by (auto simp: insert_TokenProgress_def split: if_splits)

lemma update_TokenProgress_frame:
  "update_TokenProgress d tid st stage tr = Inr d' \<Longrightarrow>
     chapters d' = chapters d \<and> tokens d' = tokens d"
  by (auto simp: update_TokenProgress_def Let_def split: if_splits option.splits)

lemma execute_frame:
  "execute d s = Inr d' \<Longrightarrow>
     chapters d' = chapters d \<and> tokens d' = tokens d \<and> token_progress d' = token_progress d"
  by (auto simp: execute_def split: if_splits)

subsection \<open>Uniqueness of tokens\<close>

lemma insert_Token_unique:
  assumes "insert_Token d tid l norm kind = Inr d'" and "Token_rows_unique (tokens d)"
  shows "Token_rows_unique (tokens d')"
proof -
  from assms(1) obtain t where "Token_accepts (tokens d) t" and "tokens d' = tokens d @ [t]"
    by (rule insert_Token_Inr)
  with assms(2) show ?thesis
    by (simp add: Token_rows_unique_def Token_accepts_def)
qed

lemma update_Token_unique:
  assumes "update_Token d tid norm kind = Inr d'" and "Token_rows_unique (tokens d)"
  shows "Token_rows_unique (tokens d')"
  using assms(1)
proof (cases rule: update_Token_Inr)
  case 1
  with assms(2) show ?thesis by simp
next
  case (2 old)
  define new where "new = old\<lparr>Token_norm := norm, Token_kind := kind\<rparr>"
  from 2(1) have "Token_id old = tid" by (rule find_key)
  then have id_new: "Token_id new = tid" by (simp add: new_def)
  from 2(2) have fresh:
    "Token_key new \<notin> set (map Token_key (filter (\<lambda>t. Token_id t \<noteq> tid) (tokens d)))"
    unfolding new_def Token_accepts_def by blast
  from 2(3) have eq: "tokens d' = map (\<lambda>t. if Token_id t = tid then new else t) (tokens d)"
    unfolding new_def .
  from assms(2) have ids: "distinct (map Token_id (tokens d))"
    and keys: "distinct (map Token_key (tokens d))"
    unfolding Token_rows_unique_def by blast+
  from ids keys id_new fresh
  have "distinct (map Token_key (map (\<lambda>t. if Token_id t = tid then new else t) (tokens d)))"
    by (rule distinct_map_update)
  moreover have "map Token_id (map (\<lambda>t. if Token_id t = tid then new else t) (tokens d))
      = map Token_id (tokens d)"
    using id_new by (rule map_key_update_same)
  ultimately show ?thesis
    unfolding Token_rows_unique_def eq using ids by presburger
qed

lemma run_Token_unique:
  assumes "run d x = Inr d'" and "Token_rows_unique (tokens d)"
  shows "Token_rows_unique (tokens d')"
proof (cases x)
  case (InsertToken tid l norm kind)
  with assms show ?thesis by (simp add: insert_Token_unique)
next
  case (UpdateToken tid norm kind)
  with assms show ?thesis by (simp add: update_Token_unique)
next
  case (InsertBook b)
  with assms show ?thesis by (simp add: insert_Book_frame)
next
  case (DeleteBook bid)
  with assms show ?thesis by (simp add: delete_Book_frame)
next
  case (InsertChapter c)
  with assms show ?thesis by (simp add: insert_Chapter_frame)
next
  case (UpdateChapter cid n content wc)
  with assms show ?thesis by (simp add: update_Chapter_frame)
next
  case (InsertBookVocab v)
  with assms show ?thesis by (simp add: insert_BookVocab_frame)
next
  case (UpdateBookVocab b t n)
  with assms show ?thesis by (simp add: update_BookVocab_frame)
next
  case (InsertTokenProgress p)
  with assms show ?thesis by (simp add: insert_TokenProgress_frame)
next
  case (UpdateTokenProgress tid st stage tr)
  with assms show ?thesis by (simp add: update_TokenProgress_frame)
next
  case (Execute s)
  with assms show ?thesis by (simp add: execute_frame)
qed

lemma run_all_Token_unique:
  "Token_rows_unique (tokens d) \<Longrightarrow> Token_rows_unique (tokens (run_all d xs))"
proof (induction xs arbitrary: d)
  case Nil
  then show ?case by simp
next
  case (Cons x xs)
  show ?case
  proof (cases "run d x")
    case (Inl e)
    with Cons show ?thesis by simp
  next
    case (Inr d')
    with Cons.prems have "Token_rows_unique (tokens d')" by (simp add: run_Token_unique)
    then have "Token_rows_unique (tokens (run_all d' xs))" by (rule Cons.IH)
    with Inr show ?thesis by simp
  qed
qed

text \<open>
  C5. In every persisted state no two rows of \<open>tokens\<close> have the same
  \<open>(language_id, norm)\<close>, and creating a token whose pair a row already has raises
  \<open>IntegrityError\<close>: no duplicate is written.
\<close>

theorem token_language_norm_unique:
  assumes "d = run_all (empty_db fk langs) ops"
  shows "distinct (map Token_key (tokens d)) \<and>
         ((language_id, norm) \<in> set (map Token_key (tokens d)) \<longrightarrow>
            insert_Token d tid language_id norm kind = Inl IntegrityError)"
proof
  have "Token_rows_unique (tokens (empty_db fk langs))"
    by (simp add: Token_rows_unique_def empty_db_def)
  then have "Token_rows_unique (tokens d)"
    unfolding assms by (rule run_all_Token_unique)
  then show "distinct (map Token_key (tokens d))"
    by (simp add: Token_rows_unique_def)
next
  show "(language_id, norm) \<in> set (map Token_key (tokens d)) \<longrightarrow>
          insert_Token d tid language_id norm kind = Inl IntegrityError"
    by (simp add: insert_Token_def Token_accepts_def Token_key_def Let_def
             split: option.splits)
qed

theorem token_language_norm_unique_witness:
  "(1, ''cat'') \<in> set (map Token_key
       (tokens (run_all (empty_db False []) [InsertToken 1 1 ''cat'' None]))) \<and>
   insert_Token (run_all (empty_db False []) [InsertToken 1 1 ''cat'' None])
       2 1 ''cat'' (Some 2) = Inl IntegrityError"
proof -
  have "tokens (run_all (empty_db False []) [InsertToken 1 1 ''cat'' None])
      = [\<lparr>Token_id = 1, Token_language_id = 1, Token_norm = ''cat'', Token_kind = 1\<rparr>]"
    by code_simp
  then have "(1, ''cat'') \<in> set (map Token_key
       (tokens (run_all (empty_db False []) [InsertToken 1 1 ''cat'' None])))"
    by (simp add: Token_key_def)
  with token_language_norm_unique
         [where d = "run_all (empty_db False []) [InsertToken 1 1 ''cat'' None]"
            and fk = False and langs = "[]" and ops = "[InsertToken 1 1 ''cat'' None]"
            and language_id = 1 and norm = "''cat''" and tid = 2 and kind = "Some 2", OF refl]
  show ?thesis by blast
qed

subsection \<open>Uniqueness of chapter numbers\<close>

lemma insert_Chapter_unique:
  assumes "insert_Chapter d c = Inr d'" and "Chapter_rows_unique (chapters d)"
  shows "Chapter_rows_unique (chapters d')"
proof -
  from assms(1) have "Chapter_accepts (chapters d) c" and "chapters d' = chapters d @ [c]"
    by (auto simp: insert_Chapter_def split: if_splits)
  with assms(2) show ?thesis
    by (simp add: Chapter_rows_unique_def Chapter_accepts_def)
qed

lemma update_Chapter_Inr:
  assumes "update_Chapter d cid n content wc = Inr d'"
  obtains "find (\<lambda>c. Chapter_id c = cid) (chapters d) = None" and "d' = d"
  | old where "find (\<lambda>c. Chapter_id c = cid) (chapters d) = Some old"
      and "Chapter_accepts (filter (\<lambda>c. Chapter_id c \<noteq> cid) (chapters d))
             (old\<lparr>Chapter_chapter_number := n, Chapter_content := content,
                  Chapter_word_count := wc\<rparr>)"
      and "chapters d' = map (\<lambda>c. if Chapter_id c = cid
             then old\<lparr>Chapter_chapter_number := n, Chapter_content := content,
                       Chapter_word_count := wc\<rparr> else c) (chapters d)"
proof (cases "find (\<lambda>c. Chapter_id c = cid) (chapters d)")
  case None
  with assms have "d' = d" by (simp add: update_Chapter_def)
  with None show ?thesis by (rule that(1))
next
  case (Some old)
  let ?new = "old\<lparr>Chapter_chapter_number := n, Chapter_content := content,
                   Chapter_word_count := wc\<rparr>"
  show ?thesis
  proof (cases "Chapter_accepts (filter (\<lambda>c. Chapter_id c \<noteq> cid) (chapters d)) ?new")
    case True
    with assms Some
    have "d' = d\<lparr>chapters := map (\<lambda>c. if Chapter_id c = cid then ?new else c) (chapters d)\<rparr>"
      by (simp add: update_Chapter_def Let_def)
    then have "chapters d' = map (\<lambda>c. if Chapter_id c = cid then ?new else c) (chapters d)"
      by simp
    with Some True show ?thesis by (rule that(2))
  next
    case False
    with assms Some show ?thesis by (simp add: update_Chapter_def Let_def)
  qed
qed

lemma update_Chapter_unique:
  assumes "update_Chapter d cid n content wc = Inr d'" and "Chapter_rows_unique (chapters d)"
  shows "Chapter_rows_unique (chapters d')"
  using assms(1)
proof (cases rule: update_Chapter_Inr)
  case 1
  with assms(2) show ?thesis by simp
next
  case (2 old)
  define new where "new = old\<lparr>Chapter_chapter_number := n, Chapter_content := content,
                                Chapter_word_count := wc\<rparr>"
  from 2(1) have "Chapter_id old = cid" by (rule find_key)
  then have id_new: "Chapter_id new = cid" by (simp add: new_def)
  from 2(2) have fresh:
    "Chapter_key new \<notin> set (map Chapter_key (filter (\<lambda>c. Chapter_id c \<noteq> cid) (chapters d)))"
    unfolding new_def Chapter_accepts_def by blast
  from 2(3) have eq: "chapters d' = map (\<lambda>c. if Chapter_id c = cid then new else c) (chapters d)"
    unfolding new_def .
  from assms(2) have ids: "distinct (map Chapter_id (chapters d))"
    and keys: "distinct (map Chapter_key (chapters d))"
    unfolding Chapter_rows_unique_def by blast+
  from ids keys id_new fresh
  have "distinct (map Chapter_key (map (\<lambda>c. if Chapter_id c = cid then new else c) (chapters d)))"
    by (rule distinct_map_update)
  moreover have "map Chapter_id (map (\<lambda>c. if Chapter_id c = cid then new else c) (chapters d))
      = map Chapter_id (chapters d)"
    using id_new by (rule map_key_update_same)
  ultimately show ?thesis
    unfolding Chapter_rows_unique_def eq using ids by presburger
qed

lemma delete_Book_Chapter_unique:
  assumes "delete_Book d bid = Inr d'" and "Chapter_rows_unique (chapters d)"
  shows "Chapter_rows_unique (chapters d')"
proof -
  from assms(1) have "chapters d' = chapters d \<or>
      chapters d' = filter (\<lambda>c. Chapter_book_id c \<noteq> bid) (chapters d)"
    by (simp add: delete_Book_frame)
  with assms(2) show ?thesis
    by (auto simp: Chapter_rows_unique_def distinct_map_filter)
qed

lemma run_Chapter_unique:
  assumes "run d x = Inr d'" and "Chapter_rows_unique (chapters d)"
  shows "Chapter_rows_unique (chapters d')"
proof (cases x)
  case (InsertChapter c)
  with assms show ?thesis by (simp add: insert_Chapter_unique)
next
  case (UpdateChapter cid n content wc)
  with assms show ?thesis by (simp add: update_Chapter_unique)
next
  case (DeleteBook bid)
  with assms show ?thesis by (simp add: delete_Book_Chapter_unique)
next
  case (InsertBook b)
  with assms show ?thesis by (simp add: insert_Book_frame)
next
  case (InsertToken tid l norm kind)
  with assms show ?thesis by (simp add: insert_Token_frame)
next
  case (UpdateToken tid norm kind)
  with assms show ?thesis by (simp add: update_Token_frame)
next
  case (InsertBookVocab v)
  with assms show ?thesis by (simp add: insert_BookVocab_frame)
next
  case (UpdateBookVocab b t n)
  with assms show ?thesis by (simp add: update_BookVocab_frame)
next
  case (InsertTokenProgress p)
  with assms show ?thesis by (simp add: insert_TokenProgress_frame)
next
  case (UpdateTokenProgress tid st stage tr)
  with assms show ?thesis by (simp add: update_TokenProgress_frame)
next
  case (Execute s)
  with assms show ?thesis by (simp add: execute_frame)
qed

lemma run_all_Chapter_unique:
  "Chapter_rows_unique (chapters d) \<Longrightarrow> Chapter_rows_unique (chapters (run_all d xs))"
proof (induction xs arbitrary: d)
  case Nil
  then show ?case by simp
next
  case (Cons x xs)
  show ?case
  proof (cases "run d x")
    case (Inl e)
    with Cons show ?thesis by simp
  next
    case (Inr d')
    with Cons.prems have "Chapter_rows_unique (chapters d')" by (simp add: run_Chapter_unique)
    then have "Chapter_rows_unique (chapters (run_all d' xs))" by (rule Cons.IH)
    with Inr show ?thesis by simp
  qed
qed

text \<open>
  C9. In every persisted state no two rows of \<open>chapters\<close> have the same
  \<open>(book_id, chapter_number)\<close>, and inserting a chapter whose pair a row already has
  raises \<open>IntegrityError\<close>.
\<close>

theorem chapter_number_unique_in_book:
  assumes "d = run_all (empty_db fk langs) ops"
  shows "distinct (map Chapter_key (chapters d)) \<and>
         (Chapter_key c \<in> set (map Chapter_key (chapters d)) \<longrightarrow>
            insert_Chapter d c = Inl IntegrityError)"
proof
  have "Chapter_rows_unique (chapters (empty_db fk langs))"
    by (simp add: Chapter_rows_unique_def empty_db_def)
  then have "Chapter_rows_unique (chapters d)"
    unfolding assms by (rule run_all_Chapter_unique)
  then show "distinct (map Chapter_key (chapters d))"
    by (simp add: Chapter_rows_unique_def)
next
  show "Chapter_key c \<in> set (map Chapter_key (chapters d)) \<longrightarrow>
          insert_Chapter d c = Inl IntegrityError"
    by (simp add: insert_Chapter_def Chapter_accepts_def)
qed

theorem chapter_number_unique_in_book_witness:
  "Chapter_key \<lparr>Chapter_id = 2, Chapter_book_id = 1, Chapter_chapter_number = 1,
                Chapter_content = ''the cat ran'', Chapter_word_count = 3\<rparr>
     \<in> set (map Chapter_key (chapters (run_all (empty_db False [])
         [InsertChapter \<lparr>Chapter_id = 1, Chapter_book_id = 1, Chapter_chapter_number = 1,
                         Chapter_content = ''the cat sat'', Chapter_word_count = 3\<rparr>]))) \<and>
   insert_Chapter (run_all (empty_db False [])
         [InsertChapter \<lparr>Chapter_id = 1, Chapter_book_id = 1, Chapter_chapter_number = 1,
                         Chapter_content = ''the cat sat'', Chapter_word_count = 3\<rparr>])
     \<lparr>Chapter_id = 2, Chapter_book_id = 1, Chapter_chapter_number = 1,
      Chapter_content = ''the cat ran'', Chapter_word_count = 3\<rparr> = Inl IntegrityError"
proof -
  let ?ops = "[InsertChapter \<lparr>Chapter_id = 1, Chapter_book_id = 1, Chapter_chapter_number = 1,
                         Chapter_content = ''the cat sat'', Chapter_word_count = 3\<rparr>]"
  let ?c = "\<lparr>Chapter_id = 2, Chapter_book_id = 1, Chapter_chapter_number = 1,
      Chapter_content = ''the cat ran'', Chapter_word_count = 3\<rparr>"
  have "chapters (run_all (empty_db False []) ?ops)
      = [\<lparr>Chapter_id = 1, Chapter_book_id = 1, Chapter_chapter_number = 1,
                         Chapter_content = ''the cat sat'', Chapter_word_count = 3\<rparr>]"
    by code_simp
  then have "Chapter_key ?c \<in> set (map Chapter_key (chapters (run_all (empty_db False []) ?ops)))"
    by (simp add: Chapter_key_def)
  with chapter_number_unique_in_book
         [where d = "run_all (empty_db False []) ?ops" and fk = False and langs = "[]"
            and ops = ?ops and c = ?c, OF refl]
  show ?thesis by blast
qed

subsection \<open>The rows of \<open>token_progress\<close>\<close>

lemma TokenProgress_accepts_valid:
  assumes "TokenProgress_accepts others p"
  shows "stage_valid_when_learning p"
proof -
  from assms have "TokenProgress_status p \<in> {1, 2, 3}"
    and "TokenProgress_status p = 1 \<longrightarrow>
           (case TokenProgress_learning_stage p of None \<Rightarrow> True | Some s \<Rightarrow> 1 \<le> s \<and> s \<le> 5)"
    by (simp_all add: TokenProgress_accepts_def check_status_iff check_stage_iff)
  then show ?thesis
    by (simp add: stage_valid_when_learning_def split: option.splits)
qed

lemma insert_TokenProgress_Inr:
  assumes "insert_TokenProgress d p = Inr d'"
  shows "TokenProgress_accepts (token_progress d) p \<and> token_progress d' = token_progress d @ [p]"
  using assms by (auto simp: insert_TokenProgress_def split: if_splits)

lemma update_TokenProgress_Inr:
  assumes "update_TokenProgress d tid st stage tr = Inr d'"
  obtains "find (\<lambda>p. TokenProgress_token_id p = tid) (token_progress d) = None" and "d' = d"
  | old where "find (\<lambda>p. TokenProgress_token_id p = tid) (token_progress d) = Some old"
      and "TokenProgress_accepts
             (filter (\<lambda>p. TokenProgress_token_id p \<noteq> tid) (token_progress d))
             (old\<lparr>TokenProgress_status := st, TokenProgress_learning_stage := stage,
                  TokenProgress_translation := tr\<rparr>)"
      and "token_progress d' = map (\<lambda>p. if TokenProgress_token_id p = tid
             then old\<lparr>TokenProgress_status := st, TokenProgress_learning_stage := stage,
                       TokenProgress_translation := tr\<rparr> else p) (token_progress d)"
proof (cases "find (\<lambda>p. TokenProgress_token_id p = tid) (token_progress d)")
  case None
  with assms have "d' = d" by (simp add: update_TokenProgress_def)
  with None show ?thesis by (rule that(1))
next
  case (Some old)
  let ?new = "old\<lparr>TokenProgress_status := st, TokenProgress_learning_stage := stage,
                   TokenProgress_translation := tr\<rparr>"
  show ?thesis
  proof (cases "TokenProgress_accepts
                  (filter (\<lambda>p. TokenProgress_token_id p \<noteq> tid) (token_progress d)) ?new")
    case True
    with assms Some
    have "d' = d\<lparr>token_progress :=
                   map (\<lambda>p. if TokenProgress_token_id p = tid then ?new else p) (token_progress d)\<rparr>"
      by (simp add: update_TokenProgress_def Let_def)
    then have "token_progress d' =
        map (\<lambda>p. if TokenProgress_token_id p = tid then ?new else p) (token_progress d)"
      by simp
    with Some True show ?thesis by (rule that(2))
  next
    case False
    with assms Some show ?thesis by (simp add: update_TokenProgress_def Let_def)
  qed
qed

lemma insert_TokenProgress_valid:
  assumes "insert_TokenProgress d p = Inr d'"
    and "\<forall>q\<in>set (token_progress d). stage_valid_when_learning q"
  shows "\<forall>q\<in>set (token_progress d'). stage_valid_when_learning q"
proof -
  from assms(1) have "stage_valid_when_learning p" and "token_progress d' = token_progress d @ [p]"
    by (auto dest: insert_TokenProgress_Inr TokenProgress_accepts_valid)
  with assms(2) show ?thesis by simp
qed

lemma update_TokenProgress_valid:
  assumes "update_TokenProgress d tid st stage tr = Inr d'"
    and "\<forall>q\<in>set (token_progress d). stage_valid_when_learning q"
  shows "\<forall>q\<in>set (token_progress d'). stage_valid_when_learning q"
  using assms(1)
proof (cases rule: update_TokenProgress_Inr)
  case 1
  with assms(2) show ?thesis by simp
next
  case (2 old)
  from 2(2) have "stage_valid_when_learning
      (old\<lparr>TokenProgress_status := st, TokenProgress_learning_stage := stage,
           TokenProgress_translation := tr\<rparr>)"
    by (rule TokenProgress_accepts_valid)
  with assms(2) show ?thesis unfolding 2(3) by auto
qed

lemma run_TokenProgress_valid:
  assumes "run d x = Inr d'"
    and "\<forall>q\<in>set (token_progress d). stage_valid_when_learning q"
  shows "\<forall>q\<in>set (token_progress d'). stage_valid_when_learning q"
proof (cases x)
  case (InsertTokenProgress p)
  with assms show ?thesis by (simp add: insert_TokenProgress_valid)
next
  case (UpdateTokenProgress tid st stage tr)
  with assms show ?thesis by (simp add: update_TokenProgress_valid)
next
  case (InsertBook b)
  with assms show ?thesis by (simp add: insert_Book_frame)
next
  case (DeleteBook bid)
  with assms show ?thesis by (simp add: delete_Book_frame)
next
  case (InsertChapter c)
  with assms show ?thesis by (simp add: insert_Chapter_frame)
next
  case (UpdateChapter cid n content wc)
  with assms show ?thesis by (simp add: update_Chapter_frame)
next
  case (InsertToken tid l norm kind)
  with assms show ?thesis by (simp add: insert_Token_frame)
next
  case (UpdateToken tid norm kind)
  with assms show ?thesis by (simp add: update_Token_frame)
next
  case (InsertBookVocab v)
  with assms show ?thesis by (simp add: insert_BookVocab_frame)
next
  case (UpdateBookVocab b t n)
  with assms show ?thesis by (simp add: update_BookVocab_frame)
next
  case (Execute s)
  with assms show ?thesis by (simp add: execute_frame)
qed

lemma run_all_TokenProgress_valid:
  "\<forall>q\<in>set (token_progress d). stage_valid_when_learning q \<Longrightarrow>
   \<forall>q\<in>set (token_progress (run_all d xs)). stage_valid_when_learning q"
proof (induction xs arbitrary: d)
  case Nil
  then show ?case by simp
next
  case (Cons x xs)
  show ?case
  proof (cases "run d x")
    case (Inl e)
    with Cons show ?thesis by simp
  next
    case (Inr d')
    with Cons.prems have "\<forall>q\<in>set (token_progress d'). stage_valid_when_learning q"
      by (simp add: run_TokenProgress_valid)
    then have "\<forall>q\<in>set (token_progress (run_all d' xs)). stage_valid_when_learning q"
      by (rule Cons.IH)
    with Inr show ?thesis by simp
  qed
qed

text \<open>
  C1, as amended. In every persisted state each row of \<open>token_progress\<close> has a status
  among 1, 2, 3, and a stage that is not \<open>NULL\<close> lies in 1..5 when the status is
  \<open>LEARNING\<close>. The stage of a row of another status is not constrained.
\<close>

theorem token_progress_stage_valid:
  assumes "p \<in> set (token_progress (run_all (empty_db fk langs) ops))"
  shows "stage_valid_when_learning p"
proof -
  have "\<forall>q\<in>set (token_progress (empty_db fk langs)). stage_valid_when_learning q"
    by (simp add: empty_db_def)
  then have "\<forall>q\<in>set (token_progress (run_all (empty_db fk langs) ops)).
      stage_valid_when_learning q"
    by (rule run_all_TokenProgress_valid)
  with assms show ?thesis by blast
qed

theorem token_progress_stage_valid_witness:
  "\<lparr>TokenProgress_token_id = 1, TokenProgress_status = 1,
    TokenProgress_learning_stage = Some 4, TokenProgress_translation = None\<rparr>
     \<in> set (token_progress (run_all (empty_db True [1])
          [InsertToken 1 1 ''sat'' None,
           InsertTokenProgress \<lparr>TokenProgress_token_id = 1, TokenProgress_status = 1,
             TokenProgress_learning_stage = Some 3, TokenProgress_translation = None\<rparr>,
           UpdateTokenProgress 1 1 (Some 4) None])) \<and>
   stage_valid_when_learning \<lparr>TokenProgress_token_id = 1, TokenProgress_status = 1,
    TokenProgress_learning_stage = Some 4, TokenProgress_translation = None\<rparr>"
proof -
  let ?ops = "[InsertToken 1 1 ''sat'' None,
           InsertTokenProgress \<lparr>TokenProgress_token_id = 1, TokenProgress_status = 1,
             TokenProgress_learning_stage = Some 3, TokenProgress_translation = None\<rparr>,
           UpdateTokenProgress 1 1 (Some 4) None]"
  let ?p = "\<lparr>TokenProgress_token_id = 1, TokenProgress_status = 1,
    TokenProgress_learning_stage = Some 4, TokenProgress_translation = None\<rparr>"
  have "token_progress (run_all (empty_db True [1]) ?ops) = [?p]"
    by code_simp
  then have mem: "?p \<in> set (token_progress (run_all (empty_db True [1]) ?ops))"
    by simp
  from mem token_progress_stage_valid [OF mem] show ?thesis by blast
qed

text \<open>
  The claim as the specification words it fails in both directions: with foreign keys
  enforced and the tokens present, a row of status \<open>KNOWN\<close> with stage 9 and a row of
  status \<open>LEARNING\<close> with no stage are both persisted.
\<close>

theorem token_progress_stage_iff_learning_counterexample:
  "\<lparr>TokenProgress_token_id = 1, TokenProgress_status = LearningStatus_value KNOWN,
    TokenProgress_learning_stage = Some 9, TokenProgress_translation = None\<rparr>
     \<in> set (token_progress (run_all (empty_db True [1])
          [InsertToken 1 1 ''sat'' None, InsertToken 2 1 ''cat'' None,
           InsertTokenProgress \<lparr>TokenProgress_token_id = 1,
             TokenProgress_status = LearningStatus_value KNOWN,
             TokenProgress_learning_stage = Some 9, TokenProgress_translation = None\<rparr>,
           InsertTokenProgress \<lparr>TokenProgress_token_id = 2,
             TokenProgress_status = LearningStatus_value LEARNING,
             TokenProgress_learning_stage = None, TokenProgress_translation = None\<rparr>])) \<and>
   \<not> stage_iff_learning \<lparr>TokenProgress_token_id = 1,
     TokenProgress_status = LearningStatus_value KNOWN,
     TokenProgress_learning_stage = Some 9, TokenProgress_translation = None\<rparr> \<and>
   \<lparr>TokenProgress_token_id = 2, TokenProgress_status = LearningStatus_value LEARNING,
    TokenProgress_learning_stage = None, TokenProgress_translation = None\<rparr>
     \<in> set (token_progress (run_all (empty_db True [1])
          [InsertToken 1 1 ''sat'' None, InsertToken 2 1 ''cat'' None,
           InsertTokenProgress \<lparr>TokenProgress_token_id = 1,
             TokenProgress_status = LearningStatus_value KNOWN,
             TokenProgress_learning_stage = Some 9, TokenProgress_translation = None\<rparr>,
           InsertTokenProgress \<lparr>TokenProgress_token_id = 2,
             TokenProgress_status = LearningStatus_value LEARNING,
             TokenProgress_learning_stage = None, TokenProgress_translation = None\<rparr>])) \<and>
   \<not> stage_iff_learning \<lparr>TokenProgress_token_id = 2,
     TokenProgress_status = LearningStatus_value LEARNING,
     TokenProgress_learning_stage = None, TokenProgress_translation = None\<rparr>"
  by code_simp

subsection \<open>Enumeration values\<close>

text \<open>
  C8. A token whose kind is not the value of a \<open>TokenKind\<close>, and a progress row whose
  status is not the value of a \<open>LearningStatus\<close>, are refused with \<open>IntegrityError\<close>
  by \<open>INSERT\<close> and by \<open>UPDATE\<close> alike (an \<open>UPDATE\<close> that matches no row writes
  nothing), and the database is as it was.
\<close>

theorem enumeration_values_checked:
  assumes "kind \<notin> {TokenKind_value WORD, TokenKind_value PHRASE}"
    and "status \<notin> {LearningStatus_value LEARNING, LearningStatus_value KNOWN,
                    LearningStatus_value IGNORE}"
  shows "insert_Token d tid language_id norm (Some kind) = Inl IntegrityError \<and>
         update_Token d tid norm kind =
           (if tid \<in> set (map Token_id (tokens d)) then Inl IntegrityError else Inr d) \<and>
         insert_TokenProgress d
           \<lparr>TokenProgress_token_id = tid, TokenProgress_status = status,
            TokenProgress_learning_stage = stage, TokenProgress_translation = tr\<rparr>
           = Inl IntegrityError \<and>
         update_TokenProgress d tid status stage tr =
           (if tid \<in> set (map TokenProgress_token_id (token_progress d))
            then Inl IntegrityError else Inr d) \<and>
         run_all d [InsertToken tid language_id norm (Some kind), UpdateToken tid norm kind,
                    InsertTokenProgress
                      \<lparr>TokenProgress_token_id = tid, TokenProgress_status = status,
                       TokenProgress_learning_stage = stage, TokenProgress_translation = tr\<rparr>,
                    UpdateTokenProgress tid status stage tr] = d"
proof -
  have kind: "\<not> Token_accepts others t" if "Token_kind t = kind" for others t
    using assms(1) that by (simp add: Token_accepts_def check_kind_iff)
  have status: "\<not> TokenProgress_accepts others p" if "TokenProgress_status p = status"
    for others p
    using assms(2) that by (simp add: TokenProgress_accepts_def check_status_iff)
  have 1: "insert_Token d tid language_id norm (Some kind) = Inl IntegrityError"
    by (simp add: insert_Token_def kind)
  have 2: "update_Token d tid norm kind =
           (if tid \<in> set (map Token_id (tokens d)) then Inl IntegrityError else Inr d)"
  proof (cases "find (\<lambda>t. Token_id t = tid) (tokens d)")
    case None
    then have "tid \<notin> set (map Token_id (tokens d))"
      by (auto simp: find_None_iff)
    with None show ?thesis by (simp add: update_Token_def)
  next
    case (Some old)
    then have "tid \<in> set (map Token_id (tokens d))"
      by (auto simp: find_Some_iff)
    with Some show ?thesis by (simp add: update_Token_def kind)
  qed
  have 3: "insert_TokenProgress d
           \<lparr>TokenProgress_token_id = tid, TokenProgress_status = status,
            TokenProgress_learning_stage = stage, TokenProgress_translation = tr\<rparr>
           = Inl IntegrityError"
    by (simp add: insert_TokenProgress_def status)
  have 4: "update_TokenProgress d tid status stage tr =
           (if tid \<in> set (map TokenProgress_token_id (token_progress d))
            then Inl IntegrityError else Inr d)"
  proof (cases "find (\<lambda>p. TokenProgress_token_id p = tid) (token_progress d)")
    case None
    then have "tid \<notin> set (map TokenProgress_token_id (token_progress d))"
      by (auto simp: find_None_iff)
    with None show ?thesis by (simp add: update_TokenProgress_def)
  next
    case (Some old)
    then have "tid \<in> set (map TokenProgress_token_id (token_progress d))"
      by (auto simp: find_Some_iff)
    with Some show ?thesis by (simp add: update_TokenProgress_def status)
  qed
  from 1 2 3 4 show ?thesis by simp
qed

theorem enumeration_values_checked_witness:
  "(3::int) \<notin> {TokenKind_value WORD, TokenKind_value PHRASE} \<and>
   (0::int) \<notin> {LearningStatus_value LEARNING, LearningStatus_value KNOWN,
                 LearningStatus_value IGNORE} \<and>
   insert_Token (empty_db False []) 1 1 ''sat'' (Some 3) = Inl IntegrityError \<and>
   insert_TokenProgress (empty_db False [])
     \<lparr>TokenProgress_token_id = 1, TokenProgress_status = 0,
      TokenProgress_learning_stage = None, TokenProgress_translation = None\<rparr>
     = Inl IntegrityError"
proof -
  have k: "(3::int) \<notin> {TokenKind_value WORD, TokenKind_value PHRASE}"
    and s: "(0::int) \<notin> {LearningStatus_value LEARNING, LearningStatus_value KNOWN,
                 LearningStatus_value IGNORE}"
    by simp_all
  from k s enumeration_values_checked
             [OF k s, where d = "empty_db False []" and tid = 1 and language_id = 1
                and norm = "''sat''" and stage = None and tr = None]
  show ?thesis by blast
qed

subsection \<open>The default kind\<close>

text \<open>
  C10. A token created with no kind is the token created with kind \<open>WORD\<close>: the server
  default \<open>str(TokenKind.WORD.value)\<close> is stored as the integer 1.
\<close>

theorem token_kind_defaults_to_WORD:
  "insert_Token d tid language_id norm None =
     insert_Token d tid language_id norm (Some (TokenKind_value WORD)) \<and>
   (insert_Token d tid language_id norm None = Inr d' \<longrightarrow>
      tokens d' = tokens d @ [\<lparr>Token_id = tid, Token_language_id = language_id,
                                Token_norm = norm, Token_kind = TokenKind_value WORD\<rparr>])"
proof
  show eq: "insert_Token d tid language_id norm None =
     insert_Token d tid language_id norm (Some (TokenKind_value WORD))"
    by (simp add: insert_Token_def default_kind)
  show "insert_Token d tid language_id norm None = Inr d' \<longrightarrow>
      tokens d' = tokens d @ [\<lparr>Token_id = tid, Token_language_id = language_id,
                                Token_norm = norm, Token_kind = TokenKind_value WORD\<rparr>]"
    unfolding eq by (auto simp: insert_Token_def Let_def split: if_splits)
qed

theorem token_kind_defaults_to_WORD_witness:
  "insert_Token (empty_db True [1]) 1 1 ''sat'' None =
     Inr ((empty_db True [1])\<lparr>tokens := [\<lparr>Token_id = 1, Token_language_id = 1,
        Token_norm = ''sat'', Token_kind = 1\<rparr>]\<rparr>) \<and>
   tokens ((empty_db True [1])\<lparr>tokens := [\<lparr>Token_id = 1, Token_language_id = 1,
        Token_norm = ''sat'', Token_kind = 1\<rparr>]\<rparr>) =
     tokens (empty_db True [1]) @ [\<lparr>Token_id = 1, Token_language_id = 1,
        Token_norm = ''sat'', Token_kind = TokenKind_value WORD\<rparr>]"
proof -
  have "insert_Token (empty_db True [1]) 1 1 ''sat'' None =
     Inr ((empty_db True [1])\<lparr>tokens := [\<lparr>Token_id = 1, Token_language_id = 1,
        Token_norm = ''sat'', Token_kind = 1\<rparr>]\<rparr>)"
    by code_simp
  with token_kind_defaults_to_WORD
         [where d = "empty_db True [1]" and tid = 1 and language_id = 1 and norm = "''sat''"
            and d' = "(empty_db True [1])\<lparr>tokens := [\<lparr>Token_id = 1, Token_language_id = 1,
               Token_norm = ''sat'', Token_kind = 1\<rparr>]\<rparr>"]
  show ?thesis by blast
qed

subsection \<open>Token counts\<close>

text \<open>
  C2, as amended. \<open>book_vocab\<close> declares no \<open>CHECK\<close> on \<open>token_count\<close>, so a
  count need not be greater than zero: an \<open>INSERT\<close> that is accepted with one count
  is accepted with every other count SQLite stores, zero and the negative ones included,
  and the row is stored with the count given; an \<open>UPDATE\<close> of the row's count to any
  such integer succeeds. A count SQLite does not store is refused with
  \<open>OverflowError\<close>, by \<open>INSERT\<close> and by \<open>UPDATE\<close>.
\<close>

theorem book_vocab_token_count_unchecked:
  assumes "insert_BookVocab d v = Inr d'"
  shows "(sqlite_integer n \<longrightarrow>
            insert_BookVocab d (v\<lparr>BookVocab_token_count := n\<rparr>) =
              Inr (d\<lparr>book_vocab := book_vocab d @ [v\<lparr>BookVocab_token_count := n\<rparr>]\<rparr>) \<and>
            (case update_BookVocab d' (BookVocab_book_id v) (BookVocab_token_id v) n of
               Inl e \<Rightarrow> False
             | Inr d'' \<Rightarrow> v\<lparr>BookVocab_token_count := n\<rparr> \<in> set (book_vocab d''))) \<and>
         (\<not> sqlite_integer n \<longrightarrow>
            insert_BookVocab d (v\<lparr>BookVocab_token_count := n\<rparr>) = Inl OverflowError \<and>
            update_BookVocab d' (BookVocab_book_id v) (BookVocab_token_id v) n =
              Inl OverflowError)"
proof -
  from assms have range: "sqlite_integer (BookVocab_book_id v)"
      "sqlite_integer (BookVocab_token_id v)"
    and acc: "BookVocab_accepts (book_vocab d) v"
    and fk: "\<not> (foreign_keys d \<and>
              (BookVocab_book_id v \<notin> set (map Book_id (books d)) \<or>
               BookVocab_token_id v \<notin> set (map Token_id (tokens d))))"
    and mem: "v \<in> set (book_vocab d')"
    by (auto simp: insert_BookVocab_def split: if_splits)
  from acc have acc': "BookVocab_accepts (book_vocab d) (v\<lparr>BookVocab_token_count := n\<rparr>)"
    by (simp add: BookVocab_accepts_def BookVocab_key_def)
  have 1: "insert_BookVocab d (v\<lparr>BookVocab_token_count := n\<rparr>) =
             Inr (d\<lparr>book_vocab := book_vocab d @ [v\<lparr>BookVocab_token_count := n\<rparr>]\<rparr>)"
    if "sqlite_integer n"
    using that range acc' fk by (simp add: insert_BookVocab_def)
  have 2: "case update_BookVocab d' (BookVocab_book_id v) (BookVocab_token_id v) n of
               Inl e \<Rightarrow> False
             | Inr d'' \<Rightarrow> v\<lparr>BookVocab_token_count := n\<rparr> \<in> set (book_vocab d'')"
    if "sqlite_integer n"
    using that range mem by (force simp: update_BookVocab_def BookVocab_key_def)
  have 3: "insert_BookVocab d (v\<lparr>BookVocab_token_count := n\<rparr>) = Inl OverflowError"
    and 4: "update_BookVocab d' (BookVocab_book_id v) (BookVocab_token_id v) n =
              Inl OverflowError"
    if "\<not> sqlite_integer n"
    using that by (simp_all add: insert_BookVocab_def update_BookVocab_def)
  from 1 2 3 4 show ?thesis by blast
qed

theorem book_vocab_token_count_unchecked_witness:
  "insert_BookVocab (empty_db False [])
     \<lparr>BookVocab_book_id = 1, BookVocab_token_id = 1, BookVocab_token_count = 2\<rparr> =
     Inr ((empty_db False [])\<lparr>book_vocab :=
       [\<lparr>BookVocab_book_id = 1, BookVocab_token_id = 1, BookVocab_token_count = 2\<rparr>]\<rparr>) \<and>
   sqlite_integer (- 7) \<and>
   insert_BookVocab (empty_db False [])
     \<lparr>BookVocab_book_id = 1, BookVocab_token_id = 1, BookVocab_token_count = - 7\<rparr> =
     Inr ((empty_db False [])\<lparr>book_vocab :=
       [\<lparr>BookVocab_book_id = 1, BookVocab_token_id = 1, BookVocab_token_count = - 7\<rparr>]\<rparr>) \<and>
   \<not> sqlite_integer (2 ^ 63) \<and>
   insert_BookVocab (empty_db False [])
     \<lparr>BookVocab_book_id = 1, BookVocab_token_id = 1, BookVocab_token_count = 2 ^ 63\<rparr> =
     Inl OverflowError"
proof -
  let ?v = "\<lparr>BookVocab_book_id = 1, BookVocab_token_id = 1, BookVocab_token_count = 2\<rparr>"
  have ok: "insert_BookVocab (empty_db False []) ?v =
     Inr ((empty_db False [])\<lparr>book_vocab := [?v]\<rparr>)"
    by code_simp
  have small: "sqlite_integer (- 7)" and large: "\<not> sqlite_integer (2 ^ 63)"
    by (simp_all add: sqlite_integer_def)
  from book_vocab_token_count_unchecked [OF ok, of "- 7"] small
  have "insert_BookVocab (empty_db False []) (?v\<lparr>BookVocab_token_count := - 7\<rparr>) =
     Inr ((empty_db False [])\<lparr>book_vocab :=
        book_vocab (empty_db False []) @ [?v\<lparr>BookVocab_token_count := - 7\<rparr>]\<rparr>)"
    by blast
  then have neg: "insert_BookVocab (empty_db False [])
     \<lparr>BookVocab_book_id = 1, BookVocab_token_id = 1, BookVocab_token_count = - 7\<rparr> =
     Inr ((empty_db False [])\<lparr>book_vocab :=
       [\<lparr>BookVocab_book_id = 1, BookVocab_token_id = 1, BookVocab_token_count = - 7\<rparr>]\<rparr>)"
    by (simp add: empty_db_def)
  from book_vocab_token_count_unchecked [OF ok, of "2 ^ 63"] large
  have "insert_BookVocab (empty_db False []) (?v\<lparr>BookVocab_token_count := 2 ^ 63\<rparr>) =
     Inl OverflowError"
    by blast
  then have big: "insert_BookVocab (empty_db False [])
     \<lparr>BookVocab_book_id = 1, BookVocab_token_id = 1, BookVocab_token_count = 2 ^ 63\<rparr> =
     Inl OverflowError"
    by simp
  from ok small neg large big show ?thesis by blast
qed

text \<open>
  The claim as stated fails: with foreign keys enforced and the book and the token
  present, a row with count 0 is inserted, and an update sets a count to \<open>- 1\<close>.
\<close>

theorem book_vocab_token_count_positive_counterexample:
  "\<lparr>BookVocab_book_id = 1, BookVocab_token_id = 1, BookVocab_token_count = 0\<rparr>
     \<in> set (book_vocab (run_all (empty_db True [1])
         [InsertBook \<lparr>Book_id = 1, Book_language_id = 1, Book_title = ''Alpha'',
            Book_cover_art_filepath = None, Book_source = None, Book_is_archived = False,
            Book_last_visited_chapter = None, Book_last_visited_word_index = None,
            Book_last_read = None\<rparr>,
          InsertToken 1 1 ''cat'' None, InsertToken 2 1 ''sat'' None,
          InsertBookVocab
            \<lparr>BookVocab_book_id = 1, BookVocab_token_id = 1, BookVocab_token_count = 0\<rparr>,
          InsertBookVocab
            \<lparr>BookVocab_book_id = 1, BookVocab_token_id = 2, BookVocab_token_count = 1\<rparr>,
          UpdateBookVocab 1 2 (- 1)])) \<and>
   \<not> token_count_positive
     \<lparr>BookVocab_book_id = 1, BookVocab_token_id = 1, BookVocab_token_count = 0\<rparr> \<and>
   \<lparr>BookVocab_book_id = 1, BookVocab_token_id = 2, BookVocab_token_count = - 1\<rparr>
     \<in> set (book_vocab (run_all (empty_db True [1])
         [InsertBook \<lparr>Book_id = 1, Book_language_id = 1, Book_title = ''Alpha'',
            Book_cover_art_filepath = None, Book_source = None, Book_is_archived = False,
            Book_last_visited_chapter = None, Book_last_visited_word_index = None,
            Book_last_read = None\<rparr>,
          InsertToken 1 1 ''cat'' None, InsertToken 2 1 ''sat'' None,
          InsertBookVocab
            \<lparr>BookVocab_book_id = 1, BookVocab_token_id = 1, BookVocab_token_count = 0\<rparr>,
          InsertBookVocab
            \<lparr>BookVocab_book_id = 1, BookVocab_token_id = 2, BookVocab_token_count = 1\<rparr>,
          UpdateBookVocab 1 2 (- 1)])) \<and>
   \<not> token_count_positive
     \<lparr>BookVocab_book_id = 1, BookVocab_token_id = 2, BookVocab_token_count = - 1\<rparr>"
  by code_simp

subsection \<open>Deleting a book leaves its vocabulary\<close>

text \<open>
  C6. A book with a \<open>book_vocab\<close> row and a \<open>book_totals\<close> row is deleted. Without
  foreign key enforcement the book goes, its \<open>book_vocab\<close> row stays and references no
  book; with enforcement the deletion raises \<open>IntegrityError\<close>. In neither case are the
  \<open>book_vocab\<close> rows deleted with the book. The chapters are, and so are the totals
  under enforcement, as the third deletion (of a book with no vocabulary) shows.
\<close>

theorem delete_Book_keeps_book_vocab:
  "delete_Book
     \<lparr>foreign_keys = False, languages = [1],
      books = [\<lparr>Book_id = 1, Book_language_id = 1, Book_title = ''Alpha'',
                Book_cover_art_filepath = None, Book_source = None, Book_is_archived = False,
                Book_last_visited_chapter = None, Book_last_visited_word_index = None,
                Book_last_read = None\<rparr>],
      chapters = [\<lparr>Chapter_id = 1, Chapter_book_id = 1, Chapter_chapter_number = 1,
                   Chapter_content = ''the cat sat'', Chapter_word_count = 3\<rparr>],
      tokens = [\<lparr>Token_id = 1, Token_language_id = 1, Token_norm = ''cat'', Token_kind = 1\<rparr>],
      book_vocab = [\<lparr>BookVocab_book_id = 1, BookVocab_token_id = 1, BookVocab_token_count = 1\<rparr>],
      token_progress = [],
      book_totals = [\<lparr>BookTotals_book_id = 1, BookTotals_total_tokens = 1,
                      BookTotals_total_types = 1\<rparr>]\<rparr> 1
   = Inr \<lparr>foreign_keys = False, languages = [1], books = [], chapters = [],
      tokens = [\<lparr>Token_id = 1, Token_language_id = 1, Token_norm = ''cat'', Token_kind = 1\<rparr>],
      book_vocab = [\<lparr>BookVocab_book_id = 1, BookVocab_token_id = 1, BookVocab_token_count = 1\<rparr>],
      token_progress = [],
      book_totals = [\<lparr>BookTotals_book_id = 1, BookTotals_total_tokens = 1,
                      BookTotals_total_types = 1\<rparr>]\<rparr> \<and>
   \<not> book_vocab_books_exist
      \<lparr>foreign_keys = False, languages = [1], books = [], chapters = [],
      tokens = [\<lparr>Token_id = 1, Token_language_id = 1, Token_norm = ''cat'', Token_kind = 1\<rparr>],
      book_vocab = [\<lparr>BookVocab_book_id = 1, BookVocab_token_id = 1, BookVocab_token_count = 1\<rparr>],
      token_progress = [],
      book_totals = [\<lparr>BookTotals_book_id = 1, BookTotals_total_tokens = 1,
                      BookTotals_total_types = 1\<rparr>]\<rparr> \<and>
   delete_Book
     \<lparr>foreign_keys = True, languages = [1],
      books = [\<lparr>Book_id = 1, Book_language_id = 1, Book_title = ''Alpha'',
                Book_cover_art_filepath = None, Book_source = None, Book_is_archived = False,
                Book_last_visited_chapter = None, Book_last_visited_word_index = None,
                Book_last_read = None\<rparr>],
      chapters = [\<lparr>Chapter_id = 1, Chapter_book_id = 1, Chapter_chapter_number = 1,
                   Chapter_content = ''the cat sat'', Chapter_word_count = 3\<rparr>],
      tokens = [\<lparr>Token_id = 1, Token_language_id = 1, Token_norm = ''cat'', Token_kind = 1\<rparr>],
      book_vocab = [\<lparr>BookVocab_book_id = 1, BookVocab_token_id = 1, BookVocab_token_count = 1\<rparr>],
      token_progress = [],
      book_totals = [\<lparr>BookTotals_book_id = 1, BookTotals_total_tokens = 1,
                      BookTotals_total_types = 1\<rparr>]\<rparr> 1
   = Inl IntegrityError \<and>
   delete_Book
     \<lparr>foreign_keys = True, languages = [1],
      books = [\<lparr>Book_id = 1, Book_language_id = 1, Book_title = ''Alpha'',
                Book_cover_art_filepath = None, Book_source = None, Book_is_archived = False,
                Book_last_visited_chapter = None, Book_last_visited_word_index = None,
                Book_last_read = None\<rparr>],
      chapters = [\<lparr>Chapter_id = 1, Chapter_book_id = 1, Chapter_chapter_number = 1,
                   Chapter_content = ''the cat sat'', Chapter_word_count = 3\<rparr>],
      tokens = [\<lparr>Token_id = 1, Token_language_id = 1, Token_norm = ''cat'', Token_kind = 1\<rparr>],
      book_vocab = [],
      token_progress = [],
      book_totals = [\<lparr>BookTotals_book_id = 1, BookTotals_total_tokens = 1,
                      BookTotals_total_types = 1\<rparr>]\<rparr> 1
   = Inr \<lparr>foreign_keys = True, languages = [1], books = [], chapters = [],
      tokens = [\<lparr>Token_id = 1, Token_language_id = 1, Token_norm = ''cat'', Token_kind = 1\<rparr>],
      book_vocab = [], token_progress = [], book_totals = []\<rparr>"
  by code_simp

subsection \<open>The totals upsert\<close>

lemma map_update_absent:
  "a \<notin> set (map k xs) \<Longrightarrow> map (\<lambda>x. if k x = a then g x else x) xs = xs"
  by (induction xs) auto

lemma map_update_twice:
  assumes "\<And>x. k (g x) = k x" and "\<And>x. g (g x) = g x"
  shows "map (\<lambda>x. if k x = a then g x else x) (map (\<lambda>x. if k x = a then g x else x) xs)
       = map (\<lambda>x. if k x = a then g x else x) xs"
  using assms by (induction xs) auto

lemma map_update_keys:
  assumes "\<And>x. k (g x) = k x"
  shows "map k (map (\<lambda>x. if k x = a then g x else x) xs) = map k xs"
  using assms by (induction xs) auto

lemma map_update_others:
  assumes "\<And>x. k (g x) = k x"
  shows "filter (\<lambda>x. k x \<noteq> a) (map (\<lambda>x. if k x = a then g x else x) xs)
       = filter (\<lambda>x. k x \<noteq> a) xs"
  using assms by (induction xs) auto

lemma map_update_values:
  assumes "\<And>x. P (g x)"
  shows "\<forall>r\<in>set (map (\<lambda>x. if k x = a then g x else x) xs). k r = a \<longrightarrow> P r"
  using assms by (induction xs) auto

lemma execute_overflow:
  assumes "\<not> (sqlite_integer b \<and> sqlite_integer tt \<and> sqlite_integer ty)"
  shows "execute d (upsert_stmt b tt ty) = Inl OverflowError"
  using assms by (auto simp: execute_def upsert_stmt_def)

lemma execute_present:
  assumes "sqlite_integer b" and "sqlite_integer tt" and "sqlite_integer ty"
    and "b \<in> set (map BookTotals_book_id (book_totals d))"
  shows "execute d (upsert_stmt b tt ty) =
     Inr (d\<lparr>book_totals := map (\<lambda>r. if BookTotals_book_id r = b
              then r\<lparr>BookTotals_total_tokens := tt, BookTotals_total_types := ty\<rparr> else r)
            (book_totals d)\<rparr>)"
  using assms by (simp add: execute_def upsert_stmt_def)

lemma execute_absent:
  assumes "sqlite_integer b" and "sqlite_integer tt" and "sqlite_integer ty"
    and "b \<notin> set (map BookTotals_book_id (book_totals d))"
  shows "execute d (upsert_stmt b tt ty) =
     (if foreign_keys d \<and> b \<notin> set (map Book_id (books d)) then Inl IntegrityError
      else Inr (d\<lparr>book_totals := book_totals d @
              [\<lparr>BookTotals_book_id = b, BookTotals_total_tokens = tt,
                BookTotals_total_types = ty\<rparr>]\<rparr>))"
  using assms by (simp add: execute_def upsert_stmt_def)

text \<open>
  C3, as amended. When the three arguments are integers SQLite stores and the foreign
  key lets the statement run (it is not enforced, or the book exists), executing
  \<open>upsert_stmt book_id total_tokens total_types\<close> succeeds. When \<open>book_totals\<close> has
  no row for \<open>book_id\<close> the new row is appended; when it has one the rows keep their
  keys; in both cases every row of \<open>book_id\<close> then holds the two given values, the
  rows of the other books are as before, and so are the other tables.
\<close>

theorem upsert_stmt_inserts_or_overwrites:
  assumes "sqlite_integer book_id" and "sqlite_integer total_tokens"
    and "sqlite_integer total_types"
    and "foreign_keys d \<longrightarrow> book_id \<in> set (map Book_id (books d))"
  shows "case execute d (upsert_stmt book_id total_tokens total_types) of
           Inl e \<Rightarrow> False
         | Inr d' \<Rightarrow>
             (book_id \<notin> set (map BookTotals_book_id (book_totals d)) \<longrightarrow>
                book_totals d' = book_totals d @
                  [\<lparr>BookTotals_book_id = book_id, BookTotals_total_tokens = total_tokens,
                    BookTotals_total_types = total_types\<rparr>]) \<and>
             (book_id \<in> set (map BookTotals_book_id (book_totals d)) \<longrightarrow>
                map BookTotals_book_id (book_totals d') =
                map BookTotals_book_id (book_totals d)) \<and>
             book_id \<in> set (map BookTotals_book_id (book_totals d')) \<and>
             (\<forall>r\<in>set (book_totals d'). BookTotals_book_id r = book_id \<longrightarrow>
                BookTotals_total_tokens r = total_tokens \<and>
                BookTotals_total_types r = total_types) \<and>
             filter (\<lambda>r. BookTotals_book_id r \<noteq> book_id) (book_totals d') =
             filter (\<lambda>r. BookTotals_book_id r \<noteq> book_id) (book_totals d) \<and>
             d'\<lparr>book_totals := book_totals d\<rparr> = d"
proof (cases "book_id \<in> set (map BookTotals_book_id (book_totals d))")
  case True
  define g :: "BookTotals \<Rightarrow> BookTotals"
    where "g = (\<lambda>r. r\<lparr>BookTotals_total_tokens := total_tokens,
                       BookTotals_total_types := total_types\<rparr>)"
  define d' where
    "d' = d\<lparr>book_totals :=
              map (\<lambda>r. if BookTotals_book_id r = book_id then g r else r) (book_totals d)\<rparr>"
  have run: "execute d (upsert_stmt book_id total_tokens total_types) = Inr d'"
    unfolding d'_def g_def using assms(1-3) True by (rule execute_present)
  have key: "BookTotals_book_id (g r) = BookTotals_book_id r" for r
    by (simp add: g_def)
  have val: "BookTotals_total_tokens (g r) = total_tokens \<and>
             BookTotals_total_types (g r) = total_types" for r
    by (simp add: g_def)
  have rows: "book_totals d' =
      map (\<lambda>r. if BookTotals_book_id r = book_id then g r else r) (book_totals d)"
    by (simp add: d'_def)
  have 1: "map BookTotals_book_id (book_totals d') = map BookTotals_book_id (book_totals d)"
    unfolding rows using key by (rule map_update_keys)
  have 2: "book_id \<in> set (map BookTotals_book_id (book_totals d'))"
    unfolding 1 by (rule True)
  have 3: "\<forall>r\<in>set (book_totals d'). BookTotals_book_id r = book_id \<longrightarrow>
                BookTotals_total_tokens r = total_tokens \<and>
                BookTotals_total_types r = total_types"
    unfolding rows using val by (rule map_update_values)
  have 4: "filter (\<lambda>r. BookTotals_book_id r \<noteq> book_id) (book_totals d') =
             filter (\<lambda>r. BookTotals_book_id r \<noteq> book_id) (book_totals d)"
    unfolding rows using key by (rule map_update_others)
  have 5: "d'\<lparr>book_totals := book_totals d\<rparr> = d"
    by (simp add: d'_def)
  from True 1 2 3 4 5 show ?thesis
    unfolding run sum.case by blast
next
  case False
  define d' where "d' = d\<lparr>book_totals := book_totals d @
                  [\<lparr>BookTotals_book_id = book_id, BookTotals_total_tokens = total_tokens,
                    BookTotals_total_types = total_types\<rparr>]\<rparr>"
  from False assms(4)
  have run: "execute d (upsert_stmt book_id total_tokens total_types) = Inr d'"
    unfolding d'_def by (simp add: execute_absent [OF assms(1-3)])
  have rows: "book_totals d' = book_totals d @
                  [\<lparr>BookTotals_book_id = book_id, BookTotals_total_tokens = total_tokens,
                    BookTotals_total_types = total_types\<rparr>]"
    by (simp add: d'_def)
  from False have none: "\<forall>r\<in>set (book_totals d). BookTotals_book_id r \<noteq> book_id"
    by (metis image_eqI set_map)
  have 2: "book_id \<in> set (map BookTotals_book_id (book_totals d'))"
    unfolding rows by simp
  from none have 3: "\<forall>r\<in>set (book_totals d'). BookTotals_book_id r = book_id \<longrightarrow>
                BookTotals_total_tokens r = total_tokens \<and>
                BookTotals_total_types r = total_types"
    unfolding rows by simp
  have 4: "filter (\<lambda>r. BookTotals_book_id r \<noteq> book_id) (book_totals d') =
             filter (\<lambda>r. BookTotals_book_id r \<noteq> book_id) (book_totals d)"
    unfolding rows by simp
  have 5: "d'\<lparr>book_totals := book_totals d\<rparr> = d"
    by (simp add: d'_def)
  from False rows 2 3 4 5 show ?thesis
    unfolding run sum.case by blast
qed

theorem upsert_stmt_inserts_or_overwrites_witness:
  "sqlite_integer 1 \<and> sqlite_integer 6 \<and> sqlite_integer 5 \<and>
   (1::int) \<in> set (map Book_id (books \<lparr>foreign_keys = True, languages = [1],
       books = [\<lparr>Book_id = 1, Book_language_id = 1, Book_title = ''Alpha'',
                Book_cover_art_filepath = None, Book_source = None, Book_is_archived = False,
                Book_last_visited_chapter = None, Book_last_visited_word_index = None,
                Book_last_read = None\<rparr>],
       chapters = [], tokens = [], book_vocab = [], token_progress = [],
       book_totals = [\<lparr>BookTotals_book_id = 1, BookTotals_total_tokens = 6,
                       BookTotals_total_types = 4\<rparr>]\<rparr>)) \<and>
   (case execute \<lparr>foreign_keys = True, languages = [1],
       books = [\<lparr>Book_id = 1, Book_language_id = 1, Book_title = ''Alpha'',
                Book_cover_art_filepath = None, Book_source = None, Book_is_archived = False,
                Book_last_visited_chapter = None, Book_last_visited_word_index = None,
                Book_last_read = None\<rparr>],
       chapters = [], tokens = [], book_vocab = [], token_progress = [],
       book_totals = [\<lparr>BookTotals_book_id = 1, BookTotals_total_tokens = 6,
                       BookTotals_total_types = 4\<rparr>]\<rparr> (upsert_stmt 1 6 5) of
      Inl e \<Rightarrow> False
    | Inr d' \<Rightarrow>
        map BookTotals_book_id (book_totals d') = [1] \<and>
        map BookTotals_total_tokens (book_totals d') = [6] \<and>
        map BookTotals_total_types (book_totals d') = [5] \<and>
        filter (\<lambda>r. BookTotals_book_id r \<noteq> 1) (book_totals d') = [] \<and>
        d'\<lparr>book_totals := [\<lparr>BookTotals_book_id = 1, BookTotals_total_tokens = 6,
                               BookTotals_total_types = 4\<rparr>]\<rparr> = \<lparr>foreign_keys = True, languages = [1],
       books = [\<lparr>Book_id = 1, Book_language_id = 1, Book_title = ''Alpha'',
                Book_cover_art_filepath = None, Book_source = None, Book_is_archived = False,
                Book_last_visited_chapter = None, Book_last_visited_word_index = None,
                Book_last_read = None\<rparr>],
       chapters = [], tokens = [], book_vocab = [], token_progress = [],
       book_totals = [\<lparr>BookTotals_book_id = 1, BookTotals_total_tokens = 6,
                       BookTotals_total_types = 4\<rparr>]\<rparr>)"
proof -
  let ?d = "\<lparr>foreign_keys = True, languages = [1],
       books = [\<lparr>Book_id = 1, Book_language_id = 1, Book_title = ''Alpha'',
                Book_cover_art_filepath = None, Book_source = None, Book_is_archived = False,
                Book_last_visited_chapter = None, Book_last_visited_word_index = None,
                Book_last_read = None\<rparr>],
       chapters = [], tokens = [], book_vocab = [], token_progress = [],
       book_totals = [\<lparr>BookTotals_book_id = 1, BookTotals_total_tokens = 6,
                       BookTotals_total_types = 4\<rparr>]\<rparr>"
  have r1: "sqlite_integer 1" and r6: "sqlite_integer 6" and r5: "sqlite_integer 5"
    by (simp_all add: sqlite_integer_def)
  have mem: "(1::int) \<in> set (map Book_id (books ?d))"
    by simp
  then have h: "foreign_keys ?d \<longrightarrow> (1::int) \<in> set (map Book_id (books ?d))"
    by simp
  show ?thesis
  proof (cases "execute ?d (upsert_stmt 1 6 5)")
    case (Inl e)
    with upsert_stmt_inserts_or_overwrites [OF r1 r6 r5 h]
    show ?thesis by simp
  next
    case (Inr d')
    with upsert_stmt_inserts_or_overwrites [OF r1 r6 r5 h]
    have ids: "map BookTotals_book_id (book_totals d') = [1]"
      and vals: "\<forall>r\<in>set (book_totals d'). BookTotals_book_id r = 1 \<longrightarrow>
              BookTotals_total_tokens r = 6 \<and> BookTotals_total_types r = 5"
      and others: "filter (\<lambda>r. BookTotals_book_id r \<noteq> 1) (book_totals d') = []"
      and frame: "d'\<lparr>book_totals := [\<lparr>BookTotals_book_id = 1, BookTotals_total_tokens = 6,
                               BookTotals_total_types = 4\<rparr>]\<rparr> = ?d"
      by simp_all
    from ids obtain r where row: "book_totals d' = [r]" and "BookTotals_book_id r = 1"
      by (auto simp: map_eq_Cons_conv)
    with vals have "BookTotals_total_tokens r = 6" and "BookTotals_total_types r = 5"
      by simp_all
    with row have "map BookTotals_total_tokens (book_totals d') = [6]"
      and "map BookTotals_total_types (book_totals d') = [5]"
      by simp_all
    with r1 r6 r5 mem Inr ids others frame show ?thesis by simp
  qed
qed

text \<open>
  The claim as stated fails: no row exists for book 1 and none is inserted, when
  \<open>total_tokens\<close> is \<open>2^63\<close> (the driver raises \<open>OverflowError\<close>, whatever the
  foreign key setting), and when foreign keys are enforced and book 1 does not exist
  (the engine raises \<open>IntegrityError\<close>).
\<close>

theorem upsert_stmt_inserts_counterexample:
  "(1::int) \<notin> set (map BookTotals_book_id (book_totals (empty_db False [1]))) \<and>
   execute (empty_db False [1]) (upsert_stmt 1 (2 ^ 63) 4) = Inl OverflowError \<and>
   (1::int) \<notin> set (map BookTotals_book_id (book_totals (empty_db True [1]))) \<and>
   execute (empty_db True [1]) (upsert_stmt 1 6 4) = Inl IntegrityError"
  by code_simp

text \<open>
  C4. Executing \<open>upsert_stmt\<close> twice with the same arguments gives the result of
  executing it once: the same database when it succeeds, the same error when the driver
  refuses an argument or the foreign key refuses the insert.
\<close>

theorem upsert_stmt_idempotent:
  "(case execute d (upsert_stmt book_id total_tokens total_types) of
      Inl e \<Rightarrow> Inl e
    | Inr d' \<Rightarrow> execute d' (upsert_stmt book_id total_tokens total_types)) =
   execute d (upsert_stmt book_id total_tokens total_types)"
proof (cases "sqlite_integer book_id \<and> sqlite_integer total_tokens \<and>
              sqlite_integer total_types")
  case False
  then have "execute d (upsert_stmt book_id total_tokens total_types) = Inl OverflowError"
    by (rule execute_overflow)
  then show ?thesis by simp
next
  case range: True
  define g :: "BookTotals \<Rightarrow> BookTotals"
    where "g = (\<lambda>r. r\<lparr>BookTotals_total_tokens := total_tokens,
                       BookTotals_total_types := total_types\<rparr>)"
  define u where "u = (\<lambda>r. if BookTotals_book_id r = book_id then g r else r)"
  from range have r1: "sqlite_integer book_id" and r2: "sqlite_integer total_tokens"
    and r3: "sqlite_integer total_types"
    by blast+
  have key: "BookTotals_book_id (g r) = BookTotals_book_id r" for r
    by (simp add: g_def)
  have idem: "g (g r) = g r" for r
    by (simp add: g_def)
  have present: "execute e (upsert_stmt book_id total_tokens total_types) =
      Inr (e\<lparr>book_totals := map u (book_totals e)\<rparr>)"
    if "book_id \<in> set (map BookTotals_book_id (book_totals e))" for e
    unfolding u_def g_def using r1 r2 r3 that by (rule execute_present)
  have twice: "map u (map u xs) = map u xs" for xs
    unfolding u_def using key idem by (rule map_update_twice)
  have keys: "map BookTotals_book_id (map u xs) = map BookTotals_book_id xs" for xs
    unfolding u_def using key by (rule map_update_keys)
  show ?thesis
  proof (cases "book_id \<in> set (map BookTotals_book_id (book_totals d))")
    case True
    define d' where "d' = d\<lparr>book_totals := map u (book_totals d)\<rparr>"
    from True have run: "execute d (upsert_stmt book_id total_tokens total_types) = Inr d'"
      unfolding d'_def by (rule present)
    have rows: "book_totals d' = map u (book_totals d)"
      by (simp add: d'_def)
    from True have "book_id \<in> set (map BookTotals_book_id (book_totals d'))"
      unfolding rows keys .
    then have "execute d' (upsert_stmt book_id total_tokens total_types) =
        Inr (d'\<lparr>book_totals := map u (book_totals d')\<rparr>)"
      by (rule present)
    also have "d'\<lparr>book_totals := map u (book_totals d')\<rparr> = d'"
      unfolding rows twice by (simp add: d'_def)
    finally show ?thesis unfolding run sum.case .
  next
    case False
    show ?thesis
    proof (cases "foreign_keys d \<and> book_id \<notin> set (map Book_id (books d))")
      case True
      with False have "execute d (upsert_stmt book_id total_tokens total_types) =
          Inl IntegrityError"
        by (simp add: execute_absent [OF r1 r2 r3])
      then show ?thesis by simp
    next
      case ok: False
      define new where "new = \<lparr>BookTotals_book_id = book_id,
          BookTotals_total_tokens = total_tokens, BookTotals_total_types = total_types\<rparr>"
      define d' where "d' = d\<lparr>book_totals := book_totals d @ [new]\<rparr>"
      from False ok have run: "execute d (upsert_stmt book_id total_tokens total_types) = Inr d'"
        unfolding d'_def new_def by (simp add: execute_absent [OF r1 r2 r3])
      have rows: "book_totals d' = book_totals d @ [new]"
        by (simp add: d'_def)
      have "book_id \<in> set (map BookTotals_book_id (book_totals d'))"
        unfolding rows by (simp add: new_def)
      then have "execute d' (upsert_stmt book_id total_tokens total_types) =
          Inr (d'\<lparr>book_totals := map u (book_totals d')\<rparr>)"
        by (rule present)
      also have "map u (book_totals d') = book_totals d'"
      proof -
        from False have "map u (book_totals d) = book_totals d"
          unfolding u_def by (rule map_update_absent)
        moreover have "u new = new"
          by (simp add: u_def g_def new_def)
        ultimately show ?thesis unfolding rows by simp
      qed
      also have "d'\<lparr>book_totals := book_totals d'\<rparr> = d'"
        by simp
      finally show ?thesis unfolding run sum.case .
    qed
  qed
qed

theorem upsert_stmt_idempotent_witness:
  "execute (empty_db False []) (upsert_stmt 1 6 4) =
     Inr ((empty_db False [])\<lparr>book_totals :=
        [\<lparr>BookTotals_book_id = 1, BookTotals_total_tokens = 6, BookTotals_total_types = 4\<rparr>]\<rparr>) \<and>
   execute ((empty_db False [])\<lparr>book_totals :=
        [\<lparr>BookTotals_book_id = 1, BookTotals_total_tokens = 6, BookTotals_total_types = 4\<rparr>]\<rparr>)
     (upsert_stmt 1 6 4) =
     Inr ((empty_db False [])\<lparr>book_totals :=
        [\<lparr>BookTotals_book_id = 1, BookTotals_total_tokens = 6, BookTotals_total_types = 4\<rparr>]\<rparr>)"
proof -
  have once: "execute (empty_db False []) (upsert_stmt 1 6 4) =
     Inr ((empty_db False [])\<lparr>book_totals :=
        [\<lparr>BookTotals_book_id = 1, BookTotals_total_tokens = 6, BookTotals_total_types = 4\<rparr>]\<rparr>)"
    by code_simp
  with upsert_stmt_idempotent
         [where d = "empty_db False []" and book_id = 1 and total_tokens = 6
            and total_types = 4]
  show ?thesis
    by simp
qed

subsection \<open>Advancing the learning stage\<close>

lemma find_map_update:
  assumes "find (\<lambda>x. k x = a) xs = Some y" and "k new = a"
  shows "find (\<lambda>x. k x = a) (map (\<lambda>x. if k x = a then new else x) xs) = Some new"
  using assms by (induction xs) (auto split: if_splits)

lemma advance_LEARNING:
  assumes "find (\<lambda>p. TokenProgress_token_id p = t) (token_progress d) = Some p"
    and "TokenProgress_status p = 1"
    and "TokenProgress_learning_stage p = Some s"
    and "1 \<le> s"
  shows "\<exists>d' p'. advance d t = Inr d' \<and>
           find (\<lambda>p. TokenProgress_token_id p = t) (token_progress d') = Some p' \<and>
           TokenProgress_status p' = 1 \<and>
           TokenProgress_learning_stage p' = Some (min (s + 1) 5)"
proof -
  define new where "new = p\<lparr>TokenProgress_status := 1,
      TokenProgress_learning_stage := Some (min (s + 1) 5),
      TokenProgress_translation := TokenProgress_translation p\<rparr>"
  define d' where "d' = d\<lparr>token_progress :=
      map (\<lambda>q. if TokenProgress_token_id q = t then new else q) (token_progress d)\<rparr>"
  from assms(1) have id: "TokenProgress_token_id p = t" by (rule find_key)
  then have id_new: "TokenProgress_token_id new = t" by (simp add: new_def)
  have "TokenProgress_token_id new \<notin>
      set (map TokenProgress_token_id
             (filter (\<lambda>q. TokenProgress_token_id q \<noteq> t) (token_progress d)))"
    unfolding id_new by auto
  moreover have "TokenProgress_status new \<in> {1, 2, 3}"
    by (simp add: new_def)
  moreover from assms(4) have "TokenProgress_status new = 1 \<longrightarrow>
      (case TokenProgress_learning_stage new of None \<Rightarrow> True | Some s \<Rightarrow> 1 \<le> s \<and> s \<le> 5)"
    by (simp add: new_def)
  ultimately have acc: "TokenProgress_accepts
      (filter (\<lambda>q. TokenProgress_token_id q \<noteq> t) (token_progress d)) new"
    unfolding TokenProgress_accepts_def check_status_iff check_stage_iff by blast
  have "update_TokenProgress d t 1 (Some (min (s + 1) 5)) (TokenProgress_translation p) = Inr d'"
    using assms(1) acc unfolding d'_def new_def
    by (simp add: update_TokenProgress_def Let_def)
  with assms(1-3) have run: "advance d t = Inr d'"
    by (simp add: advance_def NUM_LEARNING_STAGES_def)
  have "token_progress d' =
      map (\<lambda>q. if TokenProgress_token_id q = t then new else q) (token_progress d)"
    by (simp add: d'_def)
  with assms(1) id_new
  have "find (\<lambda>p. TokenProgress_token_id p = t) (token_progress d') = Some new"
    by (simp add: find_map_update)
  moreover have "TokenProgress_status new = 1"
    and "TokenProgress_learning_stage new = Some (min (s + 1) 5)"
    by (simp_all add: new_def)
  ultimately show ?thesis using run by blast
qed

lemma progress_of_LEARNING:
  "progress_of d t = Some (1, Some s) \<longleftrightarrow>
     (\<exists>p. find (\<lambda>p. TokenProgress_token_id p = t) (token_progress d) = Some p \<and>
          TokenProgress_status p = 1 \<and> TokenProgress_learning_stage p = Some s)"
  by (auto simp: progress_of_def)

lemma advance_progress:
  assumes "progress_of d t = Some (1, Some s)" and "1 \<le> s"
  shows "\<exists>d'. advance d t = Inr d' \<and> progress_of d' t = Some (1, Some (min (s + 1) 5))"
proof -
  from assms(1) obtain p
    where "find (\<lambda>p. TokenProgress_token_id p = t) (token_progress d) = Some p"
      and "TokenProgress_status p = 1" and "TokenProgress_learning_stage p = Some s"
    unfolding progress_of_LEARNING by blast
  from advance_LEARNING [OF this assms(2)] show ?thesis
    unfolding progress_of_LEARNING by blast
qed

lemma advance_times_progress:
  assumes "progress_of d t = Some (1, Some s)" and "1 \<le> s" and "s \<le> 5"
  shows "\<exists>d'. advance_times n d t = Inr d' \<and>
               progress_of d' t = Some (1, Some (min (s + int n) 5))"
  using assms
proof (induction n arbitrary: d s)
  case 0
  then show ?case by simp
next
  case (Suc n)
  from advance_progress [OF Suc.prems(1,2)] obtain d1
    where run: "advance d t = Inr d1"
      and p1: "progress_of d1 t = Some (1, Some (min (s + 1) 5))"
    by blast
  from Suc.prems(2) have "1 \<le> min (s + 1) 5" and "min (s + 1) 5 \<le> 5" by simp_all
  from Suc.IH [OF p1 this] obtain d'
    where "advance_times n d1 t = Inr d'"
      and "progress_of d' t = Some (1, Some (min (min (s + 1) 5 + int n) 5))"
    by blast
  moreover have "min (min (s + 1) 5 + int n) 5 = min (s + int (Suc n)) 5"
    by simp
  ultimately show ?case using run by simp
qed

text \<open>
  C7. \<open>advance\<close> modelled from the specification, over the \<open>token_progress\<close> table of
  the source. From a row of status \<open>LEARNING\<close> at a stage \<open>s\<close> of 1..5, one call
  succeeds and leaves the status \<open>LEARNING\<close> and the stage \<open>s + 1\<close>, or 5 when
  \<open>s\<close> is 5; so \<open>n\<close> calls succeed and leave the stage \<open>s + n\<close> capped at 5, every
  intermediate row passing the table's constraints. From stage 1, five calls leave the
  stage at 5, and a sixth raises nothing and leaves it at 5. From a row of another
  status the call is a \<open>ValidationError\<close>.
\<close>

theorem advance_increments_capped:
  assumes "progress_of d tokenId = Some (LearningStatus_value LEARNING, Some s)"
    and "1 \<le> s" and "s \<le> NUM_LEARNING_STAGES"
  shows "(case advance d tokenId of
            Inl e \<Rightarrow> False
          | Inr d' \<Rightarrow>
              progress_of d' tokenId =
                Some (LearningStatus_value LEARNING, Some (if s < 5 then s + 1 else 5))) \<and>
         (\<forall>n. case advance_times n d tokenId of
                 Inl e \<Rightarrow> False
               | Inr d' \<Rightarrow>
                   progress_of d' tokenId =
                     Some (LearningStatus_value LEARNING, Some (min (s + int n) 5))) \<and>
         (s = 1 \<longrightarrow>
            (case advance_times 5 d tokenId of
               Inl e \<Rightarrow> False
             | Inr d5 \<Rightarrow>
                 progress_of d5 tokenId = Some (LearningStatus_value LEARNING, Some 5) \<and>
                 (case advance d5 tokenId of
                    Inl e \<Rightarrow> False
                  | Inr d6 \<Rightarrow>
                      progress_of d6 tokenId =
                        Some (LearningStatus_value LEARNING, Some 5)))) \<and>
         (\<forall>d0 status stage. progress_of d0 tokenId = Some (status, stage) \<and>
              status \<noteq> LearningStatus_value LEARNING \<longrightarrow>
              advance d0 tokenId = Inl ValidationError)"
proof (intro conjI)
  from assms have start: "progress_of d tokenId = Some (1, Some s)"
    and hi: "s \<le> 5"
    by (simp_all add: NUM_LEARNING_STAGES_def)
  from advance_progress [OF start assms(2)] obtain d1
    where run1: "advance d tokenId = Inr d1"
      and p1: "progress_of d1 tokenId = Some (1, Some (min (s + 1) 5))"
    by blast
  from hi have "min (s + 1) 5 = (if s < 5 then s + 1 else 5)"
    by simp
  with p1 show "case advance d tokenId of
            Inl e \<Rightarrow> False
          | Inr d' \<Rightarrow>
              progress_of d' tokenId =
                Some (LearningStatus_value LEARNING, Some (if s < 5 then s + 1 else 5))"
    unfolding run1 sum.case by simp
  show "\<forall>n. case advance_times n d tokenId of
                 Inl e \<Rightarrow> False
               | Inr d' \<Rightarrow>
                   progress_of d' tokenId =
                     Some (LearningStatus_value LEARNING, Some (min (s + int n) 5))"
  proof
    fix n
    from advance_times_progress [OF start assms(2) hi, of n] obtain d'
      where run: "advance_times n d tokenId = Inr d'"
        and "progress_of d' tokenId = Some (1, Some (min (s + int n) 5))"
      by blast
    then show "case advance_times n d tokenId of
                 Inl e \<Rightarrow> False
               | Inr d' \<Rightarrow>
                   progress_of d' tokenId =
                     Some (LearningStatus_value LEARNING, Some (min (s + int n) 5))"
      unfolding run sum.case by simp
  qed
  show "s = 1 \<longrightarrow>
            (case advance_times 5 d tokenId of
               Inl e \<Rightarrow> False
             | Inr d5 \<Rightarrow>
                 progress_of d5 tokenId = Some (LearningStatus_value LEARNING, Some 5) \<and>
                 (case advance d5 tokenId of
                    Inl e \<Rightarrow> False
                  | Inr d6 \<Rightarrow>
                      progress_of d6 tokenId =
                        Some (LearningStatus_value LEARNING, Some 5)))"
  proof
    assume one: "s = 1"
    from advance_times_progress [OF start assms(2) hi, of 5] one obtain d5
      where run5: "advance_times 5 d tokenId = Inr d5"
        and p5: "progress_of d5 tokenId = Some (1, Some 5)"
      by auto
    from advance_progress [OF p5] obtain d6
      where run6: "advance d5 tokenId = Inr d6"
        and p6: "progress_of d6 tokenId = Some (1, Some 5)"
      by auto
    from p5 p6 show "case advance_times 5 d tokenId of
               Inl e \<Rightarrow> False
             | Inr d5 \<Rightarrow>
                 progress_of d5 tokenId = Some (LearningStatus_value LEARNING, Some 5) \<and>
                 (case advance d5 tokenId of
                    Inl e \<Rightarrow> False
                  | Inr d6 \<Rightarrow>
                      progress_of d6 tokenId =
                        Some (LearningStatus_value LEARNING, Some 5))"
      unfolding run5 sum.case run6 by simp
  qed
  show "\<forall>d0 status stage. progress_of d0 tokenId = Some (status, stage) \<and>
              status \<noteq> LearningStatus_value LEARNING \<longrightarrow>
              advance d0 tokenId = Inl ValidationError"
    by (auto simp: progress_of_def advance_def)
qed

theorem advance_increments_capped_witness:
  "progress_of \<lparr>foreign_keys = False, languages = [], books = [], chapters = [], tokens = [],
      book_vocab = [],
      token_progress = [\<lparr>TokenProgress_token_id = 7, TokenProgress_status = 1,
        TokenProgress_learning_stage = Some 1, TokenProgress_translation = None\<rparr>],
      book_totals = []\<rparr> 7 = Some (LearningStatus_value LEARNING, Some 1) \<and>
   (1::int) \<le> 1 \<and> 1 \<le> NUM_LEARNING_STAGES \<and>
   (case advance \<lparr>foreign_keys = False, languages = [], books = [], chapters = [], tokens = [],
      book_vocab = [],
      token_progress = [\<lparr>TokenProgress_token_id = 7, TokenProgress_status = 1,
        TokenProgress_learning_stage = Some 1, TokenProgress_translation = None\<rparr>],
      book_totals = []\<rparr> 7 of
      Inl e \<Rightarrow> False
    | Inr d' \<Rightarrow> progress_of d' 7 = Some (LearningStatus_value LEARNING, Some 2)) \<and>
   (case advance_times 3 \<lparr>foreign_keys = False, languages = [], books = [], chapters = [], tokens = [],
      book_vocab = [],
      token_progress = [\<lparr>TokenProgress_token_id = 7, TokenProgress_status = 1,
        TokenProgress_learning_stage = Some 1, TokenProgress_translation = None\<rparr>],
      book_totals = []\<rparr> 7 of
      Inl e \<Rightarrow> False
    | Inr d' \<Rightarrow> progress_of d' 7 = Some (LearningStatus_value LEARNING, Some 4)) \<and>
   (case advance_times 6 \<lparr>foreign_keys = False, languages = [], books = [], chapters = [], tokens = [],
      book_vocab = [],
      token_progress = [\<lparr>TokenProgress_token_id = 7, TokenProgress_status = 1,
        TokenProgress_learning_stage = Some 1, TokenProgress_translation = None\<rparr>],
      book_totals = []\<rparr> 7 of
      Inl e \<Rightarrow> False
    | Inr d' \<Rightarrow> progress_of d' 7 = Some (LearningStatus_value LEARNING, Some 5))"
proof -
  let ?d = "\<lparr>foreign_keys = False, languages = [], books = [], chapters = [], tokens = [],
      book_vocab = [],
      token_progress = [\<lparr>TokenProgress_token_id = 7, TokenProgress_status = 1,
        TokenProgress_learning_stage = Some 1, TokenProgress_translation = None\<rparr>],
      book_totals = []\<rparr>"
  have h: "progress_of ?d 7 = Some (LearningStatus_value LEARNING, Some 1)"
    by (simp add: progress_of_def)
  have lo: "(1::int) \<le> 1" and hi: "1 \<le> NUM_LEARNING_STAGES"
    by (simp_all add: NUM_LEARNING_STAGES_def)
  note all = advance_increments_capped [OF h lo hi]
  from all have one: "case advance ?d 7 of
      Inl e \<Rightarrow> False
    | Inr d' \<Rightarrow> progress_of d' 7 = Some (LearningStatus_value LEARNING, Some 2)"
    by (cases "advance ?d 7") simp_all
  from all have many: "case advance_times n ?d 7 of
      Inl e \<Rightarrow> False
    | Inr d' \<Rightarrow>
        progress_of d' 7 = Some (LearningStatus_value LEARNING, Some (min (1 + int n) 5))"
    for n
    by blast
  from many [of 3] have three: "case advance_times 3 ?d 7 of
      Inl e \<Rightarrow> False
    | Inr d' \<Rightarrow> progress_of d' 7 = Some (LearningStatus_value LEARNING, Some 4)"
    by (cases "advance_times 3 ?d 7") simp_all
  from many [of 6] have six: "case advance_times 6 ?d 7 of
      Inl e \<Rightarrow> False
    | Inr d' \<Rightarrow> progress_of d' 7 = Some (LearningStatus_value LEARNING, Some 5)"
    by (cases "advance_times 6 ?d 7") simp_all
  from h lo hi one three six show ?thesis by blast
qed

end
